theory Spec2Isabelle
  imports Main
begin

section \<open>Errors\<close>

text \<open>
  Go errors are values.  The constructors below are the errors the package can see:
  \<^item> \<open>ErrNoRows\<close> is \<^verbatim>\<open>sql.ErrNoRows\<close>;
  \<^item> \<open>External m\<close> is any other failure reported by a collaborator outside the package
    (the relational engine, the paginated source, the handler), with its message;
  \<^item> \<open>NumError f n k\<close> is \<^verbatim>\<open>*strconv.NumError{Func: f, Num: n, Err: k}\<close>;
  \<^item> \<open>New m\<close>, \<open>Wrap e m fs\<close> and \<open>From e fs\<close> are logan's \<^verbatim>\<open>errors.New(m)\<close>,
    \<^verbatim>\<open>errors.Wrap(e, m, fs)\<close> and \<^verbatim>\<open>errors.From(e, fs)\<close>; \<open>fs\<close> are the \<^verbatim>\<open>logan.F\<close> fields.
\<close>

datatype num_err = ErrSyntax | ErrRange

datatype field_value = FString string | FInt int

type_synonym fields = "(string \<times> field_value) list"

datatype error =
    ErrNoRows
  | External string
  | NumError string string num_err
  | New string
  | Wrap error string fields
  | From error fields

section \<open>The relational engine\<close>

text \<open>
  Modelled from the spec: the relational execution engine (\<^verbatim>\<open>pgdb.DB\<close>, a library outside
  the sources), which executes statements, reports ``no rows'' apart from every other
  failure, and holds the one table \<^verbatim>\<open>key_value(key TEXT PRIMARY KEY, value TEXT)\<close>.
  The table is a map from key to value.  The engine also carries a schedule of its failures
  and a journal of the statements issued so far.  Every statement takes the head of the
  schedule: \<open>Some m\<close> makes that statement fail with \<open>External m\<close> and leaves the table
  as it was, \<open>None\<close> (or an exhausted schedule) lets it run.  Statements run one after
  the other: a read sees every earlier write.
\<close>

record KeyValue =
  Key :: string
  Value :: string

datatype statement =
    SelectStmt string bool   \<comment> \<open>\<^verbatim>\<open>SELECT * FROM key_value WHERE key = k [FOR UPDATE]\<close>\<close>
  | UpsertStmt string string \<comment> \<open>\<^verbatim>\<open>INSERT ... ON CONFLICT (key) DO UPDATE SET value = EXCLUDED.value\<close>\<close>

record pgdb =
  rows :: "string \<rightharpoonup> string"
  faults :: "string option list"
  journal :: "statement list"

definition next_fault :: "pgdb \<Rightarrow> string option" where
  "next_fault d = (case faults d of [] \<Rightarrow> None | f # _ \<Rightarrow> f)"

definition issue :: "statement \<Rightarrow> pgdb \<Rightarrow> pgdb" where
  "issue st d = d\<lparr>faults := tl (faults d), journal := journal d @ [st]\<rparr>"

text \<open>
  Modelled from the spec: \<^verbatim>\<open>db.Get(&value, statement)\<close> of the engine.  It scans the selected
  row into \<open>value\<close>; the error is \<^verbatim>\<open>sql.ErrNoRows\<close> when the statement selects no row.
  On an error the destination keeps its zero value.
\<close>

definition zero_KeyValue :: KeyValue where
  "zero_KeyValue = \<lparr>Key = [], Value = []\<rparr>"

definition db_Get :: "string \<Rightarrow> bool \<Rightarrow> pgdb \<Rightarrow> (KeyValue \<times> error option) \<times> pgdb" where
  "db_Get key forUpdate d =
     (let d' = issue (SelectStmt key forUpdate) d in
      case next_fault d of
        Some m \<Rightarrow> ((zero_KeyValue, Some (External m)), d')
      | None \<Rightarrow>
          (case rows d key of
             None \<Rightarrow> ((zero_KeyValue, Some ErrNoRows), d')
           | Some v \<Rightarrow> ((\<lparr>Key = key, Value = v\<rparr>, None), d')))"

text \<open>
  Modelled from the spec: \<^verbatim>\<open>db.Exec(query)\<close> of the engine, for the upsert statement of
  \<open>kv\<close>: it inserts the row when the key is absent and overwrites the value otherwise.
\<close>

definition db_Exec_upsert :: "KeyValue \<Rightarrow> pgdb \<Rightarrow> error option \<times> pgdb" where
  "db_Exec_upsert kv d =
     (let d' = issue (UpsertStmt (Key kv) (Value kv)) d in
      case next_fault d of
        Some m \<Rightarrow> (Some (External m), d')
      | None \<Rightarrow> (None, d'\<lparr>rows := (rows d)(Key kv \<mapsto> Value kv)\<rparr>))"

section \<open>The key-value store (kv.go)\<close>

text \<open>
  A Go result \<^verbatim>\<open>(*KeyValue, error)\<close> is a pair of a pointer that may be nil and an error
  that may be nil; \<open>get\<close> can return both non-nil (\<^verbatim>\<open>return &value, err\<close>).
\<close>

definition Upsert :: "KeyValue \<Rightarrow> pgdb \<Rightarrow> error option \<times> pgdb" where
  "Upsert kv d = db_Exec_upsert kv d"

definition get :: "string \<Rightarrow> bool \<Rightarrow> pgdb \<Rightarrow> (KeyValue option \<times> error option) \<times> pgdb" where
  "get key forUpdate d =
     (case db_Get key forUpdate d of
        ((v, err), d') \<Rightarrow>
          if err = Some ErrNoRows then ((None, None), d')
          else ((Some v, err), d'))"

definition Get :: "string \<Rightarrow> pgdb \<Rightarrow> (KeyValue option \<times> error option) \<times> pgdb" where
  "Get key d = get key False d"

definition LockingGet :: "string \<Rightarrow> pgdb \<Rightarrow> (KeyValue option \<times> error option) \<times> pgdb" where
  "LockingGet key d = get key True d"

text \<open>A panic is the left summand: the value the process aborts with.\<close>

definition MustGet :: "string \<Rightarrow> pgdb \<Rightarrow> (error + KeyValue option) \<times> pgdb" where
  "MustGet key d =
     (case Get key d of
        ((v, err), d') \<Rightarrow>
          (case err of
             Some e \<Rightarrow> (Inl (Wrap e ''failed to get value by key'' [(''key'', FString key)]), d')
           | None \<Rightarrow> (Inr v, d')))"

definition MustLockingGet :: "string \<Rightarrow> pgdb \<Rightarrow> (error + KeyValue option) \<times> pgdb" where
  "MustLockingGet key d =
     (case LockingGet key d of
        ((v, err), d') \<Rightarrow>
          (case err of
             Some e \<Rightarrow>
               (Inl (Wrap e ''failed to locking get value by key'' [(''key'', FString key)]), d')
           | None \<Rightarrow> (Inr v, d')))"

section \<open>Decimal conversion (Go's strconv)\<close>

text \<open>
  The streamer calls \<^verbatim>\<open>strconv.ParseInt(v, 10, 64)\<close> and \<^verbatim>\<open>strconv.FormatUint(n, 10)\<close> of Go's
  standard library, which is outside the sources.  They are modelled as the library
  computes them, for base 10 and bit size 64: \<open>uint64\<close> values are naturals below
  \<open>2 ^ 64\<close> with the wrap-around written out, \<open>int64\<close> values are integers.
  \<^verbatim>\<open>ParseInt\<close> takes an optional sign off the front, has \<^verbatim>\<open>ParseUint\<close> read the digits, and
  checks the range \<open>- 2 ^ 63 .. 2 ^ 63 - 1\<close>.
\<close>

definition is_digit :: "char \<Rightarrow> bool" where
  "is_digit c = (48 \<le> (of_char c :: nat) \<and> (of_char c :: nat) \<le> 57)"

definition digit_val :: "char \<Rightarrow> nat" where
  "digit_val c = of_char c - 48"

definition maxUint64 :: nat where
  "maxUint64 = 2 ^ 64 - 1"

text \<open>The loop of \<^verbatim>\<open>ParseUint\<close>: \<open>s0\<close> is the whole input (for the error), \<open>n\<close> the value so far.\<close>

fun ParseUint_loop :: "string \<Rightarrow> nat \<Rightarrow> string \<Rightarrow> nat \<times> error option" where
  "ParseUint_loop s0 n [] = (n, None)"
| "ParseUint_loop s0 n (c # cs) =
     (if \<not> is_digit c then (0, Some (NumError ''ParseUint'' s0 ErrSyntax))
      else if n \<ge> maxUint64 div 10 + 1 then (maxUint64, Some (NumError ''ParseUint'' s0 ErrRange))
      else
        let n' = (n * 10) mod 2 ^ 64;
            n1 = (n' + digit_val c) mod 2 ^ 64
        in if n1 < n' \<or> n1 > maxUint64 then (maxUint64, Some (NumError ''ParseUint'' s0 ErrRange))
           else ParseUint_loop s0 n1 cs)"

definition ParseUint :: "string \<Rightarrow> nat \<times> error option" where
  "ParseUint s =
     (if s = [] then (0, Some (NumError ''ParseUint'' s ErrSyntax))
      else ParseUint_loop s 0 s)"

text \<open>\<^verbatim>\<open>int64(un)\<close> and the negation of an \<open>int64\<close>, both wrapping.\<close>

definition int64 :: "nat \<Rightarrow> int" where
  "int64 u = (if u mod 2 ^ 64 < 2 ^ 63 then int (u mod 2 ^ 64) else int (u mod 2 ^ 64) - 2 ^ 64)"

definition neg64 :: "int \<Rightarrow> int" where
  "neg64 n = (if n = - (2 ^ 63) then n else - n)"

definition ParseInt :: "string \<Rightarrow> int \<times> error option" where
  "ParseInt s0 =
     (if s0 = [] then (0, Some (NumError ''ParseInt'' s0 ErrSyntax))
      else
        let neg = (hd s0 = CHR ''-'');
            s = (if hd s0 = CHR ''+'' \<or> hd s0 = CHR ''-'' then tl s0 else s0)
        in case ParseUint s of
             (un, Some (NumError f num ErrSyntax)) \<Rightarrow> (0, Some (NumError ''ParseInt'' s0 ErrSyntax))
           | (un, err) \<Rightarrow>
               if \<not> neg \<and> un \<ge> 2 ^ 63 then (2 ^ 63 - 1, Some (NumError ''ParseInt'' s0 ErrRange))
               else if neg \<and> un > 2 ^ 63 then (- (2 ^ 63), Some (NumError ''ParseInt'' s0 ErrRange))
               else (if neg then neg64 (int64 un) else int64 un, None))"

text \<open>\<^verbatim>\<open>FormatUint(n, 10)\<close>: the decimal digits of \<open>n\<close>, most significant first.\<close>

definition digits :: string where
  "digits = ''0123456789''"

fun FormatUint :: "nat \<Rightarrow> string" where
  "FormatUint n =
     (if n < 10 then [digits ! n] else FormatUint (n div 10) @ [digits ! (n mod 10)])"

declare FormatUint.simps [simp del]

section \<open>The streamer\<close>

text \<open>
  \<^verbatim>\<open>pgdb.OffsetPageParams\<close>, and the streamer's fields.  The paginated source is any
  implementation of \<^verbatim>\<open>Streamable[T]\<close>: a function of the page parameters that may read and
  change a state of its own.  The \<^verbatim>\<open>KeyValueQ\<close> handle is the store of the world the
  streamer runs in; \<open>Log\<close> tells whether the logger pointer is non-nil.
\<close>

record OffsetPageParams =
  Limit :: nat
  Order :: string
  PageNumber :: nat

record ('a, 'src, 'ctx) streamer =
  Stream :: "OffsetPageParams \<Rightarrow> 'src \<Rightarrow> (error + 'a list) \<times> 'src"
  KeyValueKey :: string
  BatchSize :: nat
  Log :: bool
  Ctx :: 'ctx

record 'src world =
  store :: pgdb
  source :: 'src
  warnings :: "string list"

definition Select ::
  "('a, 'src, 'ctx) streamer \<Rightarrow> nat \<Rightarrow> 'src world \<Rightarrow> (error + 'a list) \<times> 'src world" where
  "Select s pageNumber w =
     (case Stream s \<lparr>Limit = BatchSize s, Order = [], PageNumber = pageNumber\<rparr> (source w) of
        (r, src') \<Rightarrow> (r, w\<lparr>source := src'\<rparr>))"

definition GetCurrentPage ::
  "('a, 'src, 'ctx) streamer \<Rightarrow> 'src world \<Rightarrow> (error + nat) \<times> 'src world" where
  "GetCurrentPage s w =
     (case LockingGet (KeyValueKey s) (store w) of
        ((pageKV, err), d') \<Rightarrow>
          let w' = w\<lparr>store := d'\<rparr> in
          (case err of
             Some e \<Rightarrow>
               (Inl (Wrap e ''failed to get current cursor value''
                       [(''key'', FString (KeyValueKey s))]), w')
           | None \<Rightarrow>
               let kv = (case pageKV of
                           None \<Rightarrow> \<lparr>Key = KeyValueKey s, Value = ''0''\<rparr>
                         | Some kv \<Rightarrow> kv)
               in (case ParseInt (Value kv) of
                     (page, Some e) \<Rightarrow>
                       (Inl (Wrap e ''failed to parse cursor''
                               [(''kv_cursor'', FString (Value kv))]), w')
                   | (page, None) \<Rightarrow>
                       if page < 0
                       then (Inl (From (New ''cursor cannot be negative'')
                                    [(''cursor'', FInt page)]), w')
                       else (Inr (nat page), w'))))"

definition upsert_cursor ::
  "('a, 'src, 'ctx) streamer \<Rightarrow> string \<Rightarrow> 'src world \<Rightarrow> error option \<times> 'src world" where
  "upsert_cursor s v w =
     (case Upsert \<lparr>Key = KeyValueKey s, Value = v\<rparr> (store w) of
        (err, d') \<Rightarrow> (err, w\<lparr>store := d'\<rparr>))"

text \<open>
  \<open>FormList\<close> calls itself after the reset of the cursor.  The call is well-founded in a
  store whose reads see the earlier writes: the restart reads the \<open>''0''\<close> just written,
  and page 0 never restarts.  The functions are those of the later revision of the
  streamer; the earlier revision among the sources has the same \<open>Select\<close>, \<open>FormList\<close>
  and \<open>GetCurrentPage\<close>, with the key field named \<^verbatim>\<open>KeyQ\<close> and the warning of the
  empty source logged without the nil check of the logger.
\<close>

definition restarts_left :: "('a, 'src, 'ctx) streamer \<Rightarrow> 'src world \<Rightarrow> nat" where
  "restarts_left s w =
     (case rows (store w) (KeyValueKey s) of
        None \<Rightarrow> 0
      | Some v \<Rightarrow> if v = ''0'' then 0 else 1)"

function FormList ::
  "('a, 'src, 'ctx) streamer \<Rightarrow> 'src world \<Rightarrow> (error + 'a list) \<times> 'src world" where
  "FormList s w =
     (case GetCurrentPage s w of
        (Inl err, w1) \<Rightarrow> (Inl (Wrap err ''failed to get current page number'' []), w1)
      | (Inr pageNumber, w1) \<Rightarrow>
          (case Select s pageNumber w1 of
             (Inl err, w2) \<Rightarrow> (Inl (Wrap err ''failed to select entities'' []), w2)
           | (Inr entities, w2) \<Rightarrow>
               if length entities = 0 \<and> pageNumber = 0 then
                 (Inr [], if Log s
                          then w2\<lparr>warnings := warnings w2 @ [''Entities list is empty'']\<rparr>
                          else w2)
               else if length entities = 0 then
                 (case upsert_cursor s ''0'' w2 of
                    (Some err, w3) \<Rightarrow> (Inl (Wrap err ''failed to upsert last page'' []), w3)
                  | (None, w3) \<Rightarrow> FormList s w3)
               else
                 (case upsert_cursor s (FormatUint ((pageNumber + 1) mod 2 ^ 64)) w2 of
                    (Some err, w3) \<Rightarrow>
                      (Inl (Wrap err ''failed to update last processed entities'' []), w3)
                  | (None, w3) \<Rightarrow> (Inr entities, w3))))"
  by pat_completeness auto
termination FormList
proof (relation "measure (\<lambda>(s, w). restarts_left s w)")
  show "wf (measure (\<lambda>(s, w). restarts_left s w))" by simp
next
  fix s :: "('a, 'src, 'ctx) streamer" and w :: "'src world"
    and x w1 pageNumber y w2 z w3 and entities :: "'a list"
  assume g: "(x, w1) = GetCurrentPage s w" "x = Inr pageNumber"
    and c1: "\<not> (length entities = 0 \<and> pageNumber = 0)" and c2: "length entities = 0"
    and u: "(z, w3) = upsert_cursor s ''0'' w2" "z = None"
  have p0: "ParseInt ''0'' = (0, None)"
    by (simp add: ParseInt_def ParseUint_def is_digit_def digit_val_def maxUint64_def int64_def)
  from c1 c2 have nz: "pageNumber \<noteq> 0" by simp
  from u have "rows (store w3) (KeyValueKey s) = Some ''0''"
    by (auto simp: upsert_cursor_def Upsert_def db_Exec_upsert_def issue_def Let_def
             split: option.splits prod.splits)
  then have after: "restarts_left s w3 = 0"
    by (simp add: restarts_left_def)
  from g nz p0 have "restarts_left s w = 1"
    by (auto simp: GetCurrentPage_def LockingGet_def get_def db_Get_def Let_def restarts_left_def
             split: option.splits prod.splits if_splits)
  with after show "((s, w3), (s, w)) \<in> measure (\<lambda>(s, w). restarts_left s w)"
    by simp
qed

declare FormList.simps [simp del]

text \<open>
  The handler \<^verbatim>\<open>fn func(ctx context.Context, t T) error\<close> is a Go closure: it gets the
  context and the entity, and may read and change a state \<open>'h\<close> of its own.
\<close>

type_synonym ('a, 'ctx, 'h) handler = "'ctx \<Rightarrow> 'a \<Rightarrow> 'h \<Rightarrow> error option \<times> 'h"

text \<open>The \<^verbatim>\<open>for _, entity := range entities\<close> loop of \<open>FormListAndProcess\<close>.\<close>

fun process_entities ::
  "('a, 'ctx, 'h) handler \<Rightarrow> 'ctx \<Rightarrow> 'a list \<Rightarrow> 'h \<Rightarrow> error option \<times> 'h" where
  "process_entities fn ctx [] h = (None, h)"
| "process_entities fn ctx (entity # rest) h =
     (case fn ctx entity h of
        (Some err, h') \<Rightarrow> (Some (Wrap err ''failed to process an entity'' []), h')
      | (None, h') \<Rightarrow> process_entities fn ctx rest h')"

definition FormListAndProcess ::
  "('a, 'src, 'ctx) streamer \<Rightarrow> ('a, 'ctx, 'h) handler \<Rightarrow> 'h \<Rightarrow> 'src world
     \<Rightarrow> (error option \<times> 'h) \<times> 'src world" where
  "FormListAndProcess s fn h w =
     (case FormList s w of
        (Inl err, w') \<Rightarrow> ((Some (Wrap err ''failed to form a list of entities'' []), h), w')
      | (Inr entities, w') \<Rightarrow> (process_entities fn (Ctx s) entities h, w'))"

section \<open>Notions used to state the properties\<close>

text \<open>
  The statements a call adds to the journal of the store, the values those statements
  write, and the stored cursor of a streamer.
\<close>

definition issued :: "'src world \<Rightarrow> 'src world \<Rightarrow> statement list" where
  "issued w w' = drop (length (journal (store w))) (journal (store w'))"

fun written :: "statement list \<Rightarrow> (string \<times> string) list" where
  "written [] = []"
| "written (UpsertStmt k v # sts) = (k, v) # written sts"
| "written (SelectStmt k l # sts) = written sts"

definition cursor :: "('a, 'src, 'ctx) streamer \<Rightarrow> 'src world \<Rightarrow> string option" where
  "cursor s w = rows (store w) (KeyValueKey s)"

definition engine_up :: "'src world \<Rightarrow> bool" where
  "engine_up w = list_all (\<lambda>f. f = None) (faults (store w))"

text \<open>
  Decimal numerals, independently of the library's parser: a non-empty string of the
  digits 0 to 9 and its value; the same with an optional sign in front.
\<close>

definition decimal :: "string \<Rightarrow> bool" where
  "decimal ds = (ds \<noteq> [] \<and> list_all is_digit ds)"

definition decimal_value :: "string \<Rightarrow> nat" where
  "decimal_value ds = foldl (\<lambda>a c. 10 * a + digit_val c) 0 ds"

definition base10_unsigned :: "string \<Rightarrow> nat option" where
  "base10_unsigned v = (if decimal v then Some (decimal_value v) else None)"

definition base10_signed :: "string \<Rightarrow> int option" where
  "base10_signed v =
     (case v of
        [] \<Rightarrow> None
      | c # cs \<Rightarrow>
          if c = CHR ''+'' then map_option int (base10_unsigned cs)
          else if c = CHR ''-'' then map_option (\<lambda>n. - int n) (base10_unsigned cs)
          else map_option int (base10_unsigned v))"

text \<open>
  A handler that also records, in order, the entities it is invoked on and what it
  returned for each.
\<close>

definition recording ::
  "('a, 'ctx, 'h) handler \<Rightarrow> ('a, 'ctx, 'h \<times> ('a \<times> error option) list) handler" where
  "recording fn ctx x hl =
     (case fn ctx x (fst hl) of (r, h') \<Rightarrow> (r, (h', snd hl @ [(x, r)])))"

text \<open>
  \<open>k\<close> calls of \<open>FormList\<close> one after the other: what each call returned and the stored
  cursor after it.
\<close>

fun FormList_calls ::
  "nat \<Rightarrow> ('a, 'src, 'ctx) streamer \<Rightarrow> 'src world \<Rightarrow> ((error + 'a list) \<times> string option) list" where
  "FormList_calls 0 s w = []"
| "FormList_calls (Suc k) s w =
     (case FormList s w of (r, w') \<Rightarrow> (r, cursor s w') # FormList_calls k s w')"

text \<open>
  An in-memory paginated source over a fixed list of items with limit/offset pages, a
  streamer with batch size 2 over such a source of characters, and a world with a given
  table and an engine that does not fail.
\<close>

definition slice_source :: "'a list \<Rightarrow> OffsetPageParams \<Rightarrow> unit \<Rightarrow> (error + 'a list) \<times> unit" where
  "slice_source items prm u =
     (Inr (take (Limit prm) (drop (Limit prm * PageNumber prm) items)), u)"

definition demo_streamer :: "string \<Rightarrow> (char, unit, unit) streamer" where
  "demo_streamer items =
     \<lparr>Stream = slice_source items, KeyValueKey = ''cursor'', BatchSize = 2, Log = False, Ctx = ()\<rparr>"

definition demo_store :: "(string \<rightharpoonup> string) \<Rightarrow> pgdb" where
  "demo_store tbl = \<lparr>rows = tbl, faults = [], journal = []\<rparr>"

definition demo_world :: "(string \<rightharpoonup> string) \<Rightarrow> unit world" where
  "demo_world tbl = \<lparr>store = demo_store tbl, source = (), warnings = []\<rparr>"

text \<open>A handler without state that fails on one given entity.\<close>

definition fail_on :: "char \<Rightarrow> (char, unit, unit) handler" where
  "fail_on bad ctx x h = (if x = bad then (Some (External ''boom''), h) else (None, h))"

text \<open>
  The five effects one call of \<open>FormList\<close> can have on the store: the statements it
  issues on the cursor key \<open>k\<close>, and the table \<open>tbl'\<close> it leaves from the table \<open>tbl\<close>.
\<close>

definition call_effect ::
  "string \<Rightarrow> (string \<rightharpoonup> string) \<Rightarrow> (string \<rightharpoonup> string) \<Rightarrow> statement list \<Rightarrow> bool" where
  "call_effect k tbl tbl' tr =
     (tr = [SelectStmt k True] \<and> tbl' = tbl \<or>
      (\<exists>p. tr = [SelectStmt k True, UpsertStmt k (FormatUint (Suc p))] \<and>
           (tbl' = tbl \<or> tbl' = tbl(k \<mapsto> FormatUint (Suc p)))) \<or>
      tr = [SelectStmt k True, UpsertStmt k ''0''] \<and> tbl' = tbl \<or>
      tr = [SelectStmt k True, UpsertStmt k ''0'', SelectStmt k True] \<and>
        tbl' = tbl(k \<mapsto> ''0'') \<or>
      tr = [SelectStmt k True, UpsertStmt k ''0'', SelectStmt k True,
            UpsertStmt k (FormatUint (Suc 0))] \<and>
        (tbl' = tbl(k \<mapsto> ''0'') \<or> tbl' = tbl(k \<mapsto> FormatUint (Suc 0))))"

text \<open>What \<open>GetCurrentPage\<close> makes of a value read from the store.\<close>

definition parse_cursor :: "string \<Rightarrow> error + nat" where
  "parse_cursor v =
     (case ParseInt v of
        (page, Some e) \<Rightarrow> Inl (Wrap e ''failed to parse cursor'' [(''kv_cursor'', FString v)])
      | (page, None) \<Rightarrow>
          if page < 0 then Inl (From (New ''cursor cannot be negative'') [(''cursor'', FInt page)])
          else Inr (nat page))"

section \<open>Decimal conversion: the library against decimal numerals\<close>

lemma decimal_fold_mono: "n \<le> foldl (\<lambda>a c. 10 * a + digit_val c) n cs"
proof (induction cs arbitrary: n)
  case Nil
  show ?case by simp
next
  case (Cons c cs)
  have "n \<le> 10 * n + digit_val c" by simp
  also have "\<dots> \<le> foldl (\<lambda>a c. 10 * a + digit_val c) (10 * n + digit_val c) cs"
    by (rule Cons.IH)
  finally show ?case by simp
qed

lemma digit_val_le: "is_digit c \<Longrightarrow> digit_val c \<le> 9"
  by (auto simp: is_digit_def digit_val_def)

lemma ParseUint_loop_digits:
  "list_all is_digit cs \<Longrightarrow> n \<le> maxUint64 \<Longrightarrow>
   ParseUint_loop s0 n cs =
     (if foldl (\<lambda>a c. 10 * a + digit_val c) n cs \<le> maxUint64
      then (foldl (\<lambda>a c. 10 * a + digit_val c) n cs, None)
      else (maxUint64, Some (NumError ''ParseUint'' s0 ErrRange)))"
proof (induction cs arbitrary: n)
  case Nil
  then show ?case by simp
next
  case (Cons c cs)
  let ?v = "10 * n + digit_val c"
  from Cons.prems have dc: "is_digit c" and rest: "list_all is_digit cs" by simp_all
  have d9: "digit_val c \<le> 9" using dc by (rule digit_val_le)
  have mono: "?v \<le> foldl (\<lambda>a c. 10 * a + digit_val c) ?v cs" by (rule decimal_fold_mono)
  show ?case
  proof (cases "n \<ge> maxUint64 div 10 + 1")
    case True
    then have "?v > maxUint64" by (simp add: maxUint64_def)
    with mono have "foldl (\<lambda>a c. 10 * a + digit_val c) ?v cs > maxUint64" by linarith
    with True dc show ?thesis by simp
  next
    case small: False
    then have n10: "(n * 10) mod 2 ^ 64 = n * 10" by (simp add: maxUint64_def)
    show ?thesis
    proof (cases "?v \<le> maxUint64")
      case True
      then have "(n * 10 + digit_val c) mod 2 ^ 64 = ?v" by (simp add: maxUint64_def)
      with small dc n10 True Cons.IH [OF rest True] show ?thesis
        by (simp add: Let_def mult.commute)
    next
      case False
      with d9 small have wrap: "(n * 10 + digit_val c) mod 2 ^ 64 = ?v - 2 ^ 64"
        by (simp add: maxUint64_def mod_if mult.commute)
      from False d9 small have "?v - 2 ^ 64 < n * 10" by (simp add: maxUint64_def)
      moreover from False mono have "foldl (\<lambda>a c. 10 * a + digit_val c) ?v cs > maxUint64"
        by linarith
      ultimately show ?thesis using small dc n10 wrap by (simp add: Let_def)
    qed
  qed
qed

lemma ParseUint_loop_not_digits:
  "\<not> list_all is_digit cs \<Longrightarrow>
   ParseUint_loop s0 n cs = (0, Some (NumError ''ParseUint'' s0 ErrSyntax)) \<or>
   ParseUint_loop s0 n cs = (maxUint64, Some (NumError ''ParseUint'' s0 ErrRange))"
  by (induction cs arbitrary: n) (auto simp: Let_def)

lemma ParseUint_decimal:
  "decimal ds \<Longrightarrow>
   ParseUint ds =
     (if decimal_value ds \<le> maxUint64 then (decimal_value ds, None)
      else (maxUint64, Some (NumError ''ParseUint'' ds ErrRange)))"
  by (simp add: ParseUint_def decimal_def decimal_value_def ParseUint_loop_digits)

lemma ParseUint_not_decimal:
  "\<not> decimal ds \<Longrightarrow>
   ParseUint ds = (0, Some (NumError ''ParseUint'' ds ErrSyntax)) \<or>
   ParseUint ds = (maxUint64, Some (NumError ''ParseUint'' ds ErrRange))"
  using ParseUint_loop_not_digits [of ds ds 0]
  by (auto simp: ParseUint_def decimal_def)

lemma ParseInt_signed:
  assumes "base10_signed v = Some i"
  shows "ParseInt v =
     (if i \<ge> 2 ^ 63 then (2 ^ 63 - 1, Some (NumError ''ParseInt'' v ErrRange))
      else if i < - (2 ^ 63) then (- (2 ^ 63), Some (NumError ''ParseInt'' v ErrRange))
      else (i, None))"
proof (cases v)
  case Nil
  with assms show ?thesis by (simp add: base10_signed_def)
next
  case (Cons c cs)
  show ?thesis
  proof (cases "c = CHR ''+'' \<or> c = CHR ''-''")
    case True
    with assms Cons obtain n where n: "decimal cs" "decimal_value cs = n"
      and i: "i = (if c = CHR ''+'' then int n else - int n)"
      by (auto simp: base10_signed_def base10_unsigned_def split: if_splits)
    from True Cons n i ParseUint_decimal [OF n(1)] show ?thesis
      by (auto simp: ParseInt_def Let_def maxUint64_def int64_def neg64_def)
  next
    case False
    with assms Cons have n: "decimal v" and i: "i = int (decimal_value v)"
      by (auto simp: base10_signed_def base10_unsigned_def split: if_splits)
    from False Cons n i ParseUint_decimal [OF n] show ?thesis
      by (auto simp: ParseInt_def Let_def maxUint64_def int64_def neg64_def)
  qed
qed

lemma ParseInt_not_signed:
  assumes "base10_signed v = None"
  shows "\<exists>n k. ParseInt v = (n, Some (NumError ''ParseInt'' v k))"
proof (cases v)
  case Nil
  then show ?thesis by (simp add: ParseInt_def)
next
  case (Cons c cs)
  show ?thesis
  proof (cases "c = CHR ''+'' \<or> c = CHR ''-''")
    case True
    with assms Cons have "\<not> decimal cs"
      by (auto simp: base10_signed_def base10_unsigned_def split: if_splits)
    from ParseUint_not_decimal [OF this] True Cons show ?thesis
      by (auto simp: ParseInt_def Let_def maxUint64_def)
  next
    case False
    with assms Cons have "\<not> decimal v"
      by (auto simp: base10_signed_def base10_unsigned_def split: if_splits)
    from ParseUint_not_decimal [OF this] False Cons show ?thesis
      by (auto simp: ParseInt_def Let_def maxUint64_def)
  qed
qed

lemma digits_nth: "k < 10 \<Longrightarrow> is_digit (digits ! k) \<and> digit_val (digits ! k) = k"
proof -
  assume "k < 10"
  then have "k = 0 \<or> k = 1 \<or> k = 2 \<or> k = 3 \<or> k = 4 \<or> k = 5 \<or> k = 6 \<or> k = 7 \<or> k = 8 \<or> k = 9"
    by arith
  then show ?thesis
    by (elim disjE) (simp_all add: digits_def is_digit_def digit_val_def)
qed

lemma decimal_value_snoc:
  "decimal_value (ds @ [c]) = 10 * decimal_value ds + digit_val c"
  by (simp add: decimal_value_def)

lemma FormatUint_digits: "list_all is_digit (FormatUint n) \<and> FormatUint n \<noteq> []"
proof (induction n rule: FormatUint.induct)
  case (1 n)
  show ?case
  proof (cases "n < 10")
    case True
    then show ?thesis by (simp add: FormatUint.simps [of n] digits_nth)
  next
    case False
    with "1.IH" show ?thesis by (simp add: FormatUint.simps [of n] digits_nth)
  qed
qed

lemma FormatUint_decimal: "decimal (FormatUint n)"
  by (simp add: decimal_def FormatUint_digits)

lemma FormatUint_value: "decimal_value (FormatUint n) = n"
proof (induction n rule: FormatUint.induct)
  case (1 n)
  show ?case
  proof (cases "n < 10")
    case True
    then show ?thesis by (simp add: FormatUint.simps [of n] digits_nth decimal_value_def)
  next
    case False
    with "1.IH" show ?thesis
      by (simp add: FormatUint.simps [of n] decimal_value_snoc digits_nth)
  qed
qed

lemma FormatUint_zero: "FormatUint 0 = ''0''"
  by (subst FormatUint.simps) (simp add: digits_def)

lemma FormatUint_inj: "FormatUint m = FormatUint n \<Longrightarrow> m = n"
  by (metis FormatUint_value)

lemma base10_signed_FormatUint: "base10_signed (FormatUint n) = Some (int n)"
proof (cases "FormatUint n")
  case Nil
  with FormatUint_digits [of n] show ?thesis by simp
next
  case (Cons c cs)
  with FormatUint_digits [of n] have "is_digit c" by simp
  then have "c \<noteq> CHR ''+''" "c \<noteq> CHR ''-''" by (auto simp: is_digit_def)
  with Cons FormatUint_decimal [of n] FormatUint_value [of n] show ?thesis
    by (simp add: base10_signed_def base10_unsigned_def)
qed

lemma ParseInt_FormatUint:
  "ParseInt (FormatUint n) =
     (if n < 2 ^ 63 then (int n, None)
      else (2 ^ 63 - 1, Some (NumError ''ParseInt'' (FormatUint n) ErrRange)))"
  using ParseInt_signed [OF base10_signed_FormatUint, of n] by auto

section \<open>Steps of the streamer\<close>

lemma ParseInt_range: "ParseInt v = (i, None) \<Longrightarrow> - (2 ^ 63) \<le> i \<and> i < 2 ^ 63"
proof (cases "base10_signed v")
  case None
  from ParseInt_not_signed [OF None] show "ParseInt v = (i, None) \<Longrightarrow> ?thesis" by auto
next
  case (Some j)
  from ParseInt_signed [OF Some] show "ParseInt v = (i, None) \<Longrightarrow> ?thesis"
    by (auto split: if_splits)
qed

lemma issue_simps [simp]:
  "rows (issue st d) = rows d"
  "journal (issue st d) = journal d @ [st]"
  "faults (issue st d) = tl (faults d)"
  by (simp_all add: issue_def)

lemma get_result:
  "get key l d =
     ((case next_fault d of
         Some m \<Rightarrow> (Some zero_KeyValue, Some (External m))
       | None \<Rightarrow> (case rows d key of
                    None \<Rightarrow> (None, None)
                  | Some v \<Rightarrow> (Some \<lparr>Key = key, Value = v\<rparr>, None))),
      issue (SelectStmt key l) d)"
  by (simp add: get_def db_Get_def Let_def split: option.splits)

lemma GetCurrentPage_result:
  "GetCurrentPage s w =
     ((case next_fault (store w) of
         Some m \<Rightarrow> Inl (Wrap (External m) ''failed to get current cursor value''
                         [(''key'', FString (KeyValueKey s))])
       | None \<Rightarrow> (case cursor s w of None \<Rightarrow> Inr 0 | Some v \<Rightarrow> parse_cursor v)),
      w\<lparr>store := issue (SelectStmt (KeyValueKey s) True) (store w)\<rparr>)"
proof -
  have p0: "ParseInt ''0'' = (0, None)"
    by (simp add: ParseInt_def ParseUint_def is_digit_def digit_val_def maxUint64_def int64_def)
  show ?thesis
    by (simp add: GetCurrentPage_def LockingGet_def get_result cursor_def parse_cursor_def p0
             split: option.splits prod.splits)
qed

lemma GetCurrentPage_world:
  "GetCurrentPage s w = (r, w1) \<Longrightarrow>
   w1 = w\<lparr>store := issue (SelectStmt (KeyValueKey s) True) (store w)\<rparr>"
  by (simp add: GetCurrentPage_result)

lemma GetCurrentPage_bound: "GetCurrentPage s w = (Inr p, w1) \<Longrightarrow> p < 2 ^ 63"
  using ParseInt_range
  by (fastforce simp: GetCurrentPage_result parse_cursor_def split: option.splits prod.splits if_splits)

lemma Select_world: "Select s p w = (r, w2) \<Longrightarrow> store w2 = store w \<and> warnings w2 = warnings w"
  by (auto simp: Select_def split: prod.splits)

lemma upsert_cursor_result:
  "upsert_cursor s v w =
     (case next_fault (store w) of
        Some m \<Rightarrow> (Some (External m),
                   w\<lparr>store := issue (UpsertStmt (KeyValueKey s) v) (store w)\<rparr>)
      | None \<Rightarrow> (None,
                 w\<lparr>store := (issue (UpsertStmt (KeyValueKey s) v) (store w))
                               \<lparr>rows := (rows (store w))(KeyValueKey s \<mapsto> v)\<rparr>\<rparr>))"
  by (simp add: upsert_cursor_def Upsert_def db_Exec_upsert_def Let_def split: option.splits)

lemma FormList_page_error:
  "GetCurrentPage s w = (Inl e, w1) \<Longrightarrow>
   FormList s w = (Inl (Wrap e ''failed to get current page number'' []), w1)"
  by (subst FormList.simps) simp

lemma FormList_select_error:
  "GetCurrentPage s w = (Inr p, w1) \<Longrightarrow> Select s p w1 = (Inl e, w2) \<Longrightarrow>
   FormList s w = (Inl (Wrap e ''failed to select entities'' []), w2)"
  by (subst FormList.simps) simp

lemma FormList_empty_first_page:
  "GetCurrentPage s w = (Inr 0, w1) \<Longrightarrow> Select s 0 w1 = (Inr [], w2) \<Longrightarrow>
   FormList s w =
     (Inr [], if Log s then w2\<lparr>warnings := warnings w2 @ [''Entities list is empty'']\<rparr> else w2)"
  by (subst FormList.simps) simp

lemma FormList_reset:
  "GetCurrentPage s w = (Inr p, w1) \<Longrightarrow> p \<noteq> 0 \<Longrightarrow> Select s p w1 = (Inr [], w2) \<Longrightarrow>
   FormList s w =
     (case upsert_cursor s ''0'' w2 of
        (Some err, w3) \<Rightarrow> (Inl (Wrap err ''failed to upsert last page'' []), w3)
      | (None, w3) \<Rightarrow> FormList s w3)"
  by (subst FormList.simps) simp

lemma FormList_advance:
  "GetCurrentPage s w = (Inr p, w1) \<Longrightarrow> Select s p w1 = (Inr es, w2) \<Longrightarrow> es \<noteq> [] \<Longrightarrow>
   FormList s w =
     (case upsert_cursor s (FormatUint (p + 1)) w2 of
        (Some err, w3) \<Rightarrow> (Inl (Wrap err ''failed to update last processed entities'' []), w3)
      | (None, w3) \<Rightarrow> (Inr es, w3))"
proof -
  assume g: "GetCurrentPage s w = (Inr p, w1)" and sel: "Select s p w1 = (Inr es, w2)"
    and ne: "es \<noteq> []"
  from GetCurrentPage_bound [OF g] have "(p + 1) mod 2 ^ 64 = p + 1" by simp
  with g sel ne show ?thesis by (subst FormList.simps) simp
qed

lemma issued_append [simp]:
  "journal (store w') = journal (store w) @ sts \<Longrightarrow> issued w w' = sts"
  by (simp add: issued_def)

section \<open>Absent keys\<close>

text \<open>
  C9.  When the table has no row for the key and the engine answers the query, \<open>Get\<close>
  and \<open>LockingGet\<close> return no row and no error, and \<open>MustGet\<close> and \<open>MustLockingGet\<close>
  return that absent result without a panic.  The two fatal variants panic exactly when
  the call they wrap returns an error.
\<close>

theorem absent_key_is_not_an_error:
  "(rows d key = None \<and> next_fault d = None \<longrightarrow>
      fst (Get key d) = (None, None) \<and> fst (LockingGet key d) = (None, None) \<and>
      fst (MustGet key d) = Inr None \<and> fst (MustLockingGet key d) = Inr None) \<and>
   isl (fst (MustGet key d)) = (snd (fst (Get key d)) \<noteq> None) \<and>
   isl (fst (MustLockingGet key d)) = (snd (fst (LockingGet key d)) \<noteq> None)"
  by (auto simp: Get_def LockingGet_def MustGet_def MustLockingGet_def get_result
           split: option.splits)

theorem absent_key_is_not_an_error_witness:
  "rows (demo_store Map.empty) ''bar'' = None \<and> next_fault (demo_store Map.empty) = None \<and>
   fst (Get ''bar'' (demo_store Map.empty)) = (None, None) \<and>
   fst (LockingGet ''bar'' (demo_store Map.empty)) = (None, None) \<and>
   fst (MustGet ''bar'' (demo_store Map.empty)) = Inr None \<and>
   fst (MustLockingGet ''bar'' (demo_store Map.empty)) = Inr None"
  using absent_key_is_not_an_error [of "demo_store Map.empty" "''bar''"]
  by (simp add: demo_store_def next_fault_def)

text \<open>
  C8.  When the table has no row for the cursor key and the engine answers the query,
  \<open>GetCurrentPage\<close> returns page 0 without an error; the table is as before, and the only
  statement issued is the locking read: nothing is written.
\<close>

theorem GetCurrentPage_fresh_key:
  "cursor s w = None \<and> next_fault (store w) = None \<longrightarrow>
     fst (GetCurrentPage s w) = Inr 0 \<and>
     rows (store (snd (GetCurrentPage s w))) = rows (store w) \<and>
     issued w (snd (GetCurrentPage s w)) = [SelectStmt (KeyValueKey s) True] \<and>
     written (issued w (snd (GetCurrentPage s w))) = []"
  by (simp add: GetCurrentPage_result)

theorem GetCurrentPage_fresh_key_witness:
  "cursor (demo_streamer ''abcde'') (demo_world Map.empty) = None \<and>
   next_fault (store (demo_world Map.empty)) = None \<and>
   fst (GetCurrentPage (demo_streamer ''abcde'') (demo_world Map.empty)) = Inr 0 \<and>
   rows (store (snd (GetCurrentPage (demo_streamer ''abcde'') (demo_world Map.empty)))) = Map.empty \<and>
   written (issued (demo_world Map.empty)
              (snd (GetCurrentPage (demo_streamer ''abcde'') (demo_world Map.empty)))) = []"
  using GetCurrentPage_fresh_key [of "demo_streamer ''abcde''" "demo_world Map.empty"]
  by (simp add: cursor_def demo_world_def demo_store_def next_fault_def)

lemmas eval_decimal = base10_signed_def base10_unsigned_def decimal_def decimal_value_def
  is_digit_def digit_val_def

lemmas eval_world = cursor_def demo_world_def demo_store_def demo_streamer_def next_fault_def

lemmas eval_parse = parse_cursor_def ParseInt_def ParseUint_def is_digit_def digit_val_def
  maxUint64_def int64_def neg64_def Let_def

section \<open>One call of \<open>FormList\<close>\<close>

text \<open>
  C7.  When the current page resolves to 0 and the source has no entity on page 0,
  \<open>FormList\<close> returns an empty page and no error; the only statement it issues is the
  locking read, so nothing is upserted, the table is as before, and a cursor key that
  was absent is still absent.
\<close>

theorem FormList_empty_source:
  "fst (GetCurrentPage s w) = Inr 0 \<and> fst (Select s 0 (snd (GetCurrentPage s w))) = Inr [] \<longrightarrow>
     fst (FormList s w) = Inr [] \<and>
     rows (store (snd (FormList s w))) = rows (store w) \<and>
     issued w (snd (FormList s w)) = [SelectStmt (KeyValueKey s) True] \<and>
     written (issued w (snd (FormList s w))) = [] \<and>
     (cursor s w = None \<longrightarrow> cursor s (snd (FormList s w)) = None)"
proof (intro impI, elim conjE)
  assume g: "fst (GetCurrentPage s w) = Inr 0"
    and sel: "fst (Select s 0 (snd (GetCurrentPage s w))) = Inr []"
  obtain w1 where g': "GetCurrentPage s w = (Inr 0, w1)"
    using g by (cases "GetCurrentPage s w") simp
  obtain w2 where sel': "Select s 0 w1 = (Inr [], w2)"
    using sel g' by (cases "Select s 0 w1") simp
  have w1: "store w1 = issue (SelectStmt (KeyValueKey s) True) (store w)"
    using GetCurrentPage_world [OF g'] by simp
  have w2: "store w2 = store w1"
    using Select_world [OF sel'] by simp
  have fl: "FormList s w =
      (Inr [], if Log s then w2\<lparr>warnings := warnings w2 @ [''Entities list is empty'']\<rparr> else w2)"
    by (rule FormList_empty_first_page [OF g' sel'])
  have st: "store (snd (FormList s w)) = issue (SelectStmt (KeyValueKey s) True) (store w)"
    by (simp add: fl w1 w2)
  show "fst (FormList s w) = Inr [] \<and>
     rows (store (snd (FormList s w))) = rows (store w) \<and>
     issued w (snd (FormList s w)) = [SelectStmt (KeyValueKey s) True] \<and>
     written (issued w (snd (FormList s w))) = [] \<and>
     (cursor s w = None \<longrightarrow> cursor s (snd (FormList s w)) = None)"
    by (simp add: st cursor_def) (simp add: fl)
qed

theorem FormList_empty_source_witness:
  "fst (GetCurrentPage (demo_streamer '''') (demo_world Map.empty)) = Inr 0 \<and>
   fst (Select (demo_streamer '''') 0
          (snd (GetCurrentPage (demo_streamer '''') (demo_world Map.empty)))) = Inr [] \<and>
   fst (FormList (demo_streamer '''') (demo_world Map.empty)) = Inr [] \<and>
   cursor (demo_streamer '''') (snd (FormList (demo_streamer '''') (demo_world Map.empty))) = None"
proof -
  let ?s = "demo_streamer ''''" and ?w = "demo_world Map.empty"
  have h: "fst (GetCurrentPage ?s ?w) = Inr 0 \<and>
           fst (Select ?s 0 (snd (GetCurrentPage ?s ?w))) = Inr []"
    by (simp add: GetCurrentPage_result Select_def slice_source_def eval_world)
  have c: "cursor ?s ?w = None"
    by (simp add: eval_world)
  from FormList_empty_source [of ?s ?w, THEN mp, OF h] h c show ?thesis
    by simp
qed

text \<open>
  C2.  When \<open>GetCurrentPage\<close> succeeds with page \<open>p\<close> and the source returns a non-empty
  page for the batch size and page \<open>p\<close>, \<open>FormList\<close> issues, after the locking read,
  one upsert of the cursor key with the decimal string of \<open>p + 1\<close>.  When the engine
  executes that upsert, \<open>FormList\<close> returns the fetched page itself and the stored cursor
  is that string; when the upsert fails, \<open>FormList\<close> returns the wrapped error and the
  table is as before.
\<close>

theorem FormList_advances_cursor:
  "fst (GetCurrentPage s w) = Inr p \<and>
   fst (Select s p (snd (GetCurrentPage s w))) = Inr page \<and> page \<noteq> [] \<longrightarrow>
     issued w (snd (FormList s w)) =
       [SelectStmt (KeyValueKey s) True, UpsertStmt (KeyValueKey s) (FormatUint (p + 1))] \<and>
     base10_unsigned (FormatUint (p + 1)) = Some (p + 1) \<and>
     (next_fault (store (snd (GetCurrentPage s w))) = None \<longrightarrow>
        fst (FormList s w) = Inr page \<and>
        cursor s (snd (FormList s w)) = Some (FormatUint (p + 1))) \<and>
     (\<forall>m. next_fault (store (snd (GetCurrentPage s w))) = Some m \<longrightarrow>
        fst (FormList s w) =
          Inl (Wrap (External m) ''failed to update last processed entities'' []) \<and>
        rows (store (snd (FormList s w))) = rows (store w))"
proof (intro impI, elim conjE)
  assume g: "fst (GetCurrentPage s w) = Inr p"
    and sel: "fst (Select s p (snd (GetCurrentPage s w))) = Inr page" and ne: "page \<noteq> []"
  obtain w1 where g': "GetCurrentPage s w = (Inr p, w1)"
    using g by (cases "GetCurrentPage s w") simp
  obtain w2 where sel': "Select s p w1 = (Inr page, w2)"
    using sel g' by (cases "Select s p w1") simp
  have w1: "store w1 = issue (SelectStmt (KeyValueKey s) True) (store w)"
    using GetCurrentPage_world [OF g'] by simp
  have w2: "store w2 = store w1"
    using Select_world [OF sel'] by simp
  note fl = FormList_advance [OF g' sel' ne]
  have dec: "base10_unsigned (FormatUint (p + 1)) = Some (p + 1)"
    by (simp add: base10_unsigned_def FormatUint_decimal FormatUint_value)
  show "issued w (snd (FormList s w)) =
       [SelectStmt (KeyValueKey s) True, UpsertStmt (KeyValueKey s) (FormatUint (p + 1))] \<and>
     base10_unsigned (FormatUint (p + 1)) = Some (p + 1) \<and>
     (next_fault (store (snd (GetCurrentPage s w))) = None \<longrightarrow>
        fst (FormList s w) = Inr page \<and>
        cursor s (snd (FormList s w)) = Some (FormatUint (p + 1))) \<and>
     (\<forall>m. next_fault (store (snd (GetCurrentPage s w))) = Some m \<longrightarrow>
        fst (FormList s w) =
          Inl (Wrap (External m) ''failed to update last processed entities'' []) \<and>
        rows (store (snd (FormList s w))) = rows (store w))"
  proof (cases "next_fault (store w2)")
    case None
    with fl w1 w2 g' dec show ?thesis
      by (simp add: upsert_cursor_result cursor_def)
  next
    case (Some m)
    with fl w1 w2 g' dec show ?thesis
      by (simp add: upsert_cursor_result cursor_def)
  qed
qed

theorem FormList_advances_cursor_witness:
  "fst (GetCurrentPage (demo_streamer ''abcde'') (demo_world [''cursor'' \<mapsto> ''1''])) = Inr 1 \<and>
   fst (Select (demo_streamer ''abcde'') 1
          (snd (GetCurrentPage (demo_streamer ''abcde'') (demo_world [''cursor'' \<mapsto> ''1''])))) =
     Inr ''cd'' \<and>
   issued (demo_world [''cursor'' \<mapsto> ''1''])
     (snd (FormList (demo_streamer ''abcde'') (demo_world [''cursor'' \<mapsto> ''1'']))) =
     [SelectStmt ''cursor'' True, UpsertStmt ''cursor'' ''2''] \<and>
   fst (FormList (demo_streamer ''abcde'') (demo_world [''cursor'' \<mapsto> ''1''])) = Inr ''cd'' \<and>
   cursor (demo_streamer ''abcde'')
     (snd (FormList (demo_streamer ''abcde'') (demo_world [''cursor'' \<mapsto> ''1'']))) = Some ''2''"
proof -
  let ?s = "demo_streamer ''abcde''" and ?w = "demo_world [''cursor'' \<mapsto> ''1'']"
  have g: "GetCurrentPage ?s ?w =
      (Inr 1, ?w\<lparr>store := issue (SelectStmt (KeyValueKey ?s) True) (store ?w)\<rparr>)"
    by (simp add: GetCurrentPage_result eval_world eval_parse)
  have h: "fst (GetCurrentPage ?s ?w) = Inr 1 \<and>
           fst (Select ?s 1 (snd (GetCurrentPage ?s ?w))) = Inr ''cd'' \<and> ''cd'' \<noteq> []"
    by (simp add: g) (simp add: Select_def slice_source_def eval_world)
  have nf: "next_fault (store (snd (GetCurrentPage ?s ?w))) = None"
    by (simp add: g) (simp add: eval_world)
  have k: "KeyValueKey ?s = ''cursor''"
    by (simp add: demo_streamer_def)
  have f2: "FormatUint (Suc (Suc 0)) = ''2''"
    by (subst FormatUint.simps) (simp add: digits_def)
  from FormList_advances_cursor [of ?s ?w 1 "''cd''", THEN mp, OF h] h nf show ?thesis
    by (simp add: k f2)
qed

section \<open>Reading the cursor\<close>

text \<open>
  C3 (amended).  For a value \<open>v\<close> stored at the cursor key and read by the engine,
  \<open>GetCurrentPage\<close> parses \<open>v\<close> as a signed base-10 integer of 64 bits: an optional
  \<open>+\<close> or \<open>-\<close>, then one or more digits.  It returns the number when it lies between
  0 and \<open>2 ^ 63 - 1\<close>.  It fails, and never answers 0 in place of the error, in every
  other case: with the parse error when \<open>v\<close> is no such numeral or its value is outside
  \<open>- 2 ^ 63 .. 2 ^ 63 - 1\<close>, and with ``cursor cannot be negative'' when the value is
  negative.
\<close>

theorem GetCurrentPage_signed_int64:
  "cursor s w = Some v \<and> next_fault (store w) = None \<longrightarrow>
     (case base10_signed v of
        Some i \<Rightarrow>
          if 0 \<le> i \<and> i < 2 ^ 63 then fst (GetCurrentPage s w) = Inr (nat i)
          else if - (2 ^ 63) \<le> i \<and> i < 0 then
            fst (GetCurrentPage s w) =
              Inl (From (New ''cursor cannot be negative'') [(''cursor'', FInt i)])
          else
            fst (GetCurrentPage s w) =
              Inl (Wrap (NumError ''ParseInt'' v ErrRange) ''failed to parse cursor''
                     [(''kv_cursor'', FString v)])
      | None \<Rightarrow>
          (\<exists>k. fst (GetCurrentPage s w) =
                 Inl (Wrap (NumError ''ParseInt'' v k) ''failed to parse cursor''
                        [(''kv_cursor'', FString v)])))"
proof (intro impI, elim conjE)
  assume c: "cursor s w = Some v" and nf: "next_fault (store w) = None"
  then have g: "fst (GetCurrentPage s w) = parse_cursor v"
    by (simp add: GetCurrentPage_result)
  show "case base10_signed v of
        Some i \<Rightarrow>
          if 0 \<le> i \<and> i < 2 ^ 63 then fst (GetCurrentPage s w) = Inr (nat i)
          else if - (2 ^ 63) \<le> i \<and> i < 0 then
            fst (GetCurrentPage s w) =
              Inl (From (New ''cursor cannot be negative'') [(''cursor'', FInt i)])
          else
            fst (GetCurrentPage s w) =
              Inl (Wrap (NumError ''ParseInt'' v ErrRange) ''failed to parse cursor''
                     [(''kv_cursor'', FString v)])
      | None \<Rightarrow>
          (\<exists>k. fst (GetCurrentPage s w) =
                 Inl (Wrap (NumError ''ParseInt'' v k) ''failed to parse cursor''
                        [(''kv_cursor'', FString v)]))"
  proof (cases "base10_signed v")
    case None
    from ParseInt_not_signed [OF None] obtain n k
      where "ParseInt v = (n, Some (NumError ''ParseInt'' v k))" by blast
    with None g show ?thesis by (simp add: parse_cursor_def)
  next
    case (Some i)
    from ParseInt_signed [OF Some] Some g show ?thesis
      by (simp add: parse_cursor_def)
  qed
qed

theorem GetCurrentPage_signed_int64_witness:
  "cursor (demo_streamer ''abcde'') (demo_world [''cursor'' \<mapsto> ''-1'']) = Some ''-1'' \<and>
   next_fault (store (demo_world [''cursor'' \<mapsto> ''-1''])) = None \<and>
   fst (GetCurrentPage (demo_streamer ''abcde'') (demo_world [''cursor'' \<mapsto> ''-1''])) =
     Inl (From (New ''cursor cannot be negative'') [(''cursor'', FInt (- 1))]) \<and>
   (\<exists>k. fst (GetCurrentPage (demo_streamer ''abcde'') (demo_world [''cursor'' \<mapsto> ''abc''])) =
     Inl (Wrap (NumError ''ParseInt'' ''abc'' k) ''failed to parse cursor''
            [(''kv_cursor'', FString ''abc'')])) \<and>
   fst (GetCurrentPage (demo_streamer ''abcde'') (demo_world [''cursor'' \<mapsto> ''42''])) = Inr 42"
proof -
  let ?s = "demo_streamer ''abcde''"
  have h: "cursor ?s (demo_world [''cursor'' \<mapsto> v]) = Some v \<and>
           next_fault (store (demo_world [''cursor'' \<mapsto> v])) = None" for v
    by (simp add: eval_world)
  have b: "base10_signed ''-1'' = Some (- 1)" "base10_signed ''abc'' = None"
    "base10_signed ''42'' = Some 42"
    by (simp_all add: eval_decimal)
  from GetCurrentPage_signed_int64 [of ?s "demo_world [''cursor'' \<mapsto> ''-1'']" "''-1''", THEN mp, OF h]
    GetCurrentPage_signed_int64 [of ?s "demo_world [''cursor'' \<mapsto> ''abc'']" "''abc''", THEN mp, OF h]
    GetCurrentPage_signed_int64 [of ?s "demo_world [''cursor'' \<mapsto> ''42'']" "''42''", THEN mp, OF h]
    h [of "''-1''"]
  show ?thesis
    by (simp add: b)
qed

text \<open>
  The parse is not that of an unsigned integer: \<open>9223372036854775808\<close> is an unsigned
  decimal numeral (and fits the \<open>uint64\<close> that \<open>GetCurrentPage\<close> returns), yet the call
  fails on it; \<open>+7\<close> is no unsigned numeral, yet the call returns 7.
\<close>

theorem GetCurrentPage_unsigned_counterexample:
  "base10_unsigned ''9223372036854775808'' = Some 9223372036854775808 \<and>
   fst (GetCurrentPage (demo_streamer ''abcde'')
          (demo_world [''cursor'' \<mapsto> ''9223372036854775808''])) =
     Inl (Wrap (NumError ''ParseInt'' ''9223372036854775808'' ErrRange) ''failed to parse cursor''
            [(''kv_cursor'', FString ''9223372036854775808'')]) \<and>
   base10_unsigned ''+7'' = None \<and>
   fst (GetCurrentPage (demo_streamer ''abcde'') (demo_world [''cursor'' \<mapsto> ''+7''])) = Inr 7"
  by (simp add: GetCurrentPage_result eval_world eval_parse base10_unsigned_def decimal_def
        decimal_value_def)

section \<open>The statements of one call\<close>

lemma parse_cursor_zero: "parse_cursor ''0'' = Inr 0"
  by (simp add: eval_parse)

lemma parse_cursor_FormatUint:
  "parse_cursor (FormatUint n) =
     (if n < 2 ^ 63 then Inr n
      else Inl (Wrap (NumError ''ParseInt'' (FormatUint n) ErrRange) ''failed to parse cursor''
                  [(''kv_cursor'', FString (FormatUint n))]))"
  by (simp add: parse_cursor_def ParseInt_FormatUint)

lemma FormList_trace_zero:
  assumes z: "cursor s w = None \<or> cursor s w = Some ''0''"
  shows "(journal (store (snd (FormList s w))) =
            journal (store w) @ [SelectStmt (KeyValueKey s) True] \<and>
          rows (store (snd (FormList s w))) = rows (store w)) \<or>
         (journal (store (snd (FormList s w))) =
            journal (store w) @ [SelectStmt (KeyValueKey s) True,
                                 UpsertStmt (KeyValueKey s) (FormatUint 1)] \<and>
          (rows (store (snd (FormList s w))) = rows (store w) \<or>
           rows (store (snd (FormList s w))) = (rows (store w))(KeyValueKey s \<mapsto> FormatUint 1)))"
proof -
  obtain r w1 where g: "GetCurrentPage s w = (r, w1)"
    by (cases "GetCurrentPage s w")
  have w1: "store w1 = issue (SelectStmt (KeyValueKey s) True) (store w)"
    using GetCurrentPage_world [OF g] by simp
  show ?thesis
  proof (cases r)
    case (Inl e)
    with g have "FormList s w = (Inl (Wrap e ''failed to get current page number'' []), w1)"
      by (simp add: FormList_page_error)
    with w1 show ?thesis by simp
  next
    case (Inr p)
    with g z have p0: "p = 0"
      by (auto simp: GetCurrentPage_result parse_cursor_zero split: option.splits)
    with g Inr have g0: "GetCurrentPage s w = (Inr 0, w1)" by simp
    obtain r2 w2 where sel: "Select s 0 w1 = (r2, w2)"
      by (cases "Select s 0 w1")
    have w2: "store w2 = store w1"
      using Select_world [OF sel] by simp
    show ?thesis
    proof (cases r2)
      case (Inl e)
      with sel have "FormList s w = (Inl (Wrap e ''failed to select entities'' []), w2)"
        by (simp add: FormList_select_error [OF g0])
      with w1 w2 show ?thesis by simp
    next
      case es: (Inr es)
      show ?thesis
      proof (cases "es = []")
        case True
        with sel es have "store (snd (FormList s w)) = store w2"
          by (simp add: FormList_empty_first_page [OF g0])
        with w1 w2 show ?thesis by simp
      next
        case False
        with sel es have "FormList s w =
            (case upsert_cursor s (FormatUint (0 + 1)) w2 of
               (Some err, w3) \<Rightarrow>
                 (Inl (Wrap err ''failed to update last processed entities'' []), w3)
             | (None, w3) \<Rightarrow> (Inr es, w3))"
          by (simp add: FormList_advance [OF g0])
        with w1 w2 show ?thesis
          by (cases "next_fault (store w2)") (simp_all add: upsert_cursor_result)
      qed
    qed
  qed
qed

lemma FormList_trace:
  "journal (store (snd (FormList s w))) = journal (store w) @ issued w (snd (FormList s w)) \<and>
   call_effect (KeyValueKey s) (rows (store w)) (rows (store (snd (FormList s w))))
     (issued w (snd (FormList s w)))"
proof -
  let ?G = "SelectStmt (KeyValueKey s) True"
  obtain r w1 where g: "GetCurrentPage s w = (r, w1)"
    by (cases "GetCurrentPage s w")
  have w1: "store w1 = issue ?G (store w)"
    using GetCurrentPage_world [OF g] by simp
  show ?thesis
  proof (cases r)
    case (Inl e)
    with g have "FormList s w = (Inl (Wrap e ''failed to get current page number'' []), w1)"
      by (simp add: FormList_page_error)
    with w1 show ?thesis by (simp add: call_effect_def issued_def)
  next
    case (Inr p)
    with g have gp: "GetCurrentPage s w = (Inr p, w1)" by simp
    obtain r2 w2 where sel: "Select s p w1 = (r2, w2)"
      by (cases "Select s p w1")
    have w2: "store w2 = store w1"
      using Select_world [OF sel] by simp
    show ?thesis
    proof (cases r2)
      case (Inl e)
      with sel have "FormList s w = (Inl (Wrap e ''failed to select entities'' []), w2)"
        by (simp add: FormList_select_error [OF gp])
      with w1 w2 show ?thesis by (simp add: call_effect_def issued_def)
    next
      case es: (Inr es)
      show ?thesis
      proof (cases "es = []")
        case False
        with sel es have fl: "FormList s w =
            (case upsert_cursor s (FormatUint (p + 1)) w2 of
               (Some err, w3) \<Rightarrow>
                 (Inl (Wrap err ''failed to update last processed entities'' []), w3)
             | (None, w3) \<Rightarrow> (Inr es, w3))"
          by (simp add: FormList_advance [OF gp])
        from fl w1 w2 show ?thesis
          by (cases "next_fault (store w2)")
             (auto simp: upsert_cursor_result call_effect_def issued_def)
      next
        case True
        show ?thesis
        proof (cases "p = 0")
          case p0: True
          with sel es True gp have "store (snd (FormList s w)) = store w2"
            by (simp add: FormList_empty_first_page)
          with w1 w2 show ?thesis by (simp add: call_effect_def issued_def)
        next
          case nz: False
          from sel es True have sel0: "Select s p w1 = (Inr [], w2)" by simp
          note fl = FormList_reset [OF gp nz sel0]
          show ?thesis
          proof (cases "next_fault (store w2)")
            case (Some m)
            from fl Some w1 w2 show ?thesis
              by (simp add: upsert_cursor_result call_effect_def issued_def)
          next
            case None
            let ?w3 = "w2\<lparr>store := (issue (UpsertStmt (KeyValueKey s) ''0'') (store w2))
                                   \<lparr>rows := (rows (store w2))(KeyValueKey s \<mapsto> ''0'')\<rparr>\<rparr>"
            from fl None have fl3: "FormList s w = FormList s ?w3"
              by (simp add: upsert_cursor_result)
            have c3: "cursor s ?w3 = None \<or> cursor s ?w3 = Some ''0''"
              by (simp add: cursor_def)
            have j3: "journal (store ?w3) = journal (store w) @ [?G, UpsertStmt (KeyValueKey s) ''0'']"
              and r3: "rows (store ?w3) = (rows (store w))(KeyValueKey s \<mapsto> ''0'')"
              by (simp_all add: w1 w2)
            from FormList_trace_zero [OF c3] show ?thesis
            proof
              assume a: "journal (store (snd (FormList s ?w3))) = journal (store ?w3) @ [?G] \<and>
                rows (store (snd (FormList s ?w3))) = rows (store ?w3)"
              then show ?thesis
                unfolding fl3 j3 r3 by (simp add: call_effect_def issued_def)
            next
              assume a: "journal (store (snd (FormList s ?w3))) =
                  journal (store ?w3) @ [?G, UpsertStmt (KeyValueKey s) (FormatUint 1)] \<and>
                (rows (store (snd (FormList s ?w3))) = rows (store ?w3) \<or>
                 rows (store (snd (FormList s ?w3))) =
                   (rows (store ?w3))(KeyValueKey s \<mapsto> FormatUint 1))"
              then show ?thesis
                unfolding fl3 j3 r3 by (auto simp: call_effect_def issued_def)
            qed
          qed
        qed
      qed
    qed
  qed
qed

lemma FormatUint_Suc_not_zero: "FormatUint (Suc p) \<noteq> ''0''"
proof
  assume "FormatUint (Suc p) = ''0''"
  then have "FormatUint (Suc p) = FormatUint 0" by (simp add: FormatUint_zero)
  then have "Suc p = 0" by (rule FormatUint_inj)
  then show False by simp
qed

lemma decimal_zero: "decimal ''0''"
  by (simp add: decimal_def is_digit_def)

lemma call_effect_counts:
  "call_effect k tbl tbl' tr \<Longrightarrow>
   count_list tr (UpsertStmt k ''0'') \<le> 1 \<and> count_list tr (SelectStmt k True) \<le> 2 \<and>
   length tr \<le> 4"
  unfolding call_effect_def
  by (elim disjE exE conjE) (simp_all add: FormatUint_Suc_not_zero)

lemma call_effect_written:
  "call_effect k tbl tbl' tr \<Longrightarrow> kv \<in> set (written tr) \<Longrightarrow>
   fst kv = k \<and> decimal (snd kv) \<and> (snd kv = ''0'' \<or> (\<exists>p. snd kv = FormatUint (p + 1)))"
  unfolding call_effect_def
  by (elim disjE exE conjE) (auto simp: FormatUint_decimal decimal_zero)

lemma call_effect_table:
  "call_effect k tbl tbl' tr \<Longrightarrow> tbl' = tbl \<or> (\<exists>v. decimal v \<and> tbl' = tbl(k \<mapsto> v))"
  unfolding call_effect_def
  by (elim disjE exE conjE) (blast intro: FormatUint_decimal decimal_zero)+

lemma FormatUint_digit: "n < 10 \<Longrightarrow> FormatUint n = [digits ! n]"
  by (subst FormatUint.simps) simp

lemmas eval_FormList = FormList.simps GetCurrentPage_result Select_def slice_source_def
  upsert_cursor_result FormatUint_digit digits_def

lemma demo_simps:
  "journal (store (demo_world tbl)) = []"
  "rows (store (demo_world tbl)) = tbl"
  "faults (store (demo_world tbl)) = []"
  "next_fault (store (demo_world tbl)) = None"
  "KeyValueKey (demo_streamer xs) = ''cursor''"
  "BatchSize (demo_streamer xs) = 2"
  "cursor (demo_streamer xs) (demo_world tbl) = tbl ''cursor''"
  by (simp_all add: eval_world)

lemma demo_first_page:
  "FormList (demo_streamer ''abcde'') (demo_world Map.empty) =
     (Inr ''ab'',
      \<lparr>store = \<lparr>rows = [''cursor'' \<mapsto> ''1''], faults = [],
                journal = [SelectStmt ''cursor'' True, UpsertStmt ''cursor'' ''1'']\<rparr>,
       source = (), warnings = []\<rparr>)"
  by (simp add: eval_FormList eval_world eval_parse issue_def)

lemma demo_wrap:
  "FormList (demo_streamer ''abcde'') (demo_world [''cursor'' \<mapsto> ''3'']) =
     (Inr ''ab'',
      \<lparr>store = \<lparr>rows = [''cursor'' \<mapsto> ''1''], faults = [],
                journal = [SelectStmt ''cursor'' True, UpsertStmt ''cursor'' ''0'',
                           SelectStmt ''cursor'' True, UpsertStmt ''cursor'' ''1'']\<rparr>,
       source = (), warnings = []\<rparr>)"
  by (simp add: eval_FormList eval_world eval_parse issue_def)

text \<open>
  C4.  \<open>FormList\<close> is a total function: the recursion after the reset is well-founded
  in a store whose reads see the earlier writes.  One call adds at most four statements
  to the journal of the store, among them at most one reset of the cursor to \<open>''0''\<close> and
  at most two locking reads: the body runs once and, after a reset, once more.
\<close>

theorem FormList_restarts_at_most_once:
  "journal (store (snd (FormList s w))) = journal (store w) @ issued w (snd (FormList s w)) \<and>
   count_list (issued w (snd (FormList s w))) (UpsertStmt (KeyValueKey s) ''0'') \<le> 1 \<and>
   count_list (issued w (snd (FormList s w))) (SelectStmt (KeyValueKey s) True) \<le> 2 \<and>
   length (issued w (snd (FormList s w))) \<le> 4"
  using FormList_trace [of s w] call_effect_counts by blast

theorem FormList_restarts_at_most_once_witness:
  "issued (demo_world [''cursor'' \<mapsto> ''3''])
     (snd (FormList (demo_streamer ''abcde'') (demo_world [''cursor'' \<mapsto> ''3'']))) =
     [SelectStmt ''cursor'' True, UpsertStmt ''cursor'' ''0'',
      SelectStmt ''cursor'' True, UpsertStmt ''cursor'' ''1''] \<and>
   count_list (issued (demo_world [''cursor'' \<mapsto> ''3''])
     (snd (FormList (demo_streamer ''abcde'') (demo_world [''cursor'' \<mapsto> ''3'']))))
     (UpsertStmt ''cursor'' ''0'') \<le> 1 \<and>
   fst (FormList (demo_streamer ''abcde'') (demo_world [''cursor'' \<mapsto> ''3''])) = Inr ''ab''"
  using FormList_restarts_at_most_once
    [of "demo_streamer ''abcde''" "demo_world [''cursor'' \<mapsto> ''3'']"]
  by (simp add: demo_wrap issued_def demo_simps)

text \<open>
  C10.  Every upsert one call of \<open>FormList\<close> issues, whether the call succeeds or fails,
  is on the cursor key and writes a decimal numeral: \<open>''0''\<close> for the reset or the
  decimal string of a page number plus one.  So a stored cursor that is absent or a
  decimal numeral before the call is absent or a decimal numeral after it.
\<close>

theorem FormList_writes_decimal_cursor:
  "(\<forall>kv \<in> set (written (issued w (snd (FormList s w)))).
      fst kv = KeyValueKey s \<and> decimal (snd kv) \<and>
      (snd kv = ''0'' \<or> (\<exists>p. snd kv = FormatUint (p + 1)))) \<and>
   ((\<forall>v. cursor s w = Some v \<longrightarrow> decimal v) \<longrightarrow>
    (\<forall>v. cursor s (snd (FormList s w)) = Some v \<longrightarrow> decimal v))"
proof -
  note ce = FormList_trace [of s w, THEN conjunct2]
  from call_effect_table [OF ce]
  have inv: "(\<forall>v. cursor s w = Some v \<longrightarrow> decimal v) \<longrightarrow>
    (\<forall>v. cursor s (snd (FormList s w)) = Some v \<longrightarrow> decimal v)"
    by (auto simp: cursor_def)
  from call_effect_written [OF ce] inv show ?thesis
    by blast
qed

theorem FormList_writes_decimal_cursor_witness:
  "decimal ''3'' \<and>
   written (issued (demo_world [''cursor'' \<mapsto> ''3''])
     (snd (FormList (demo_streamer ''abcde'') (demo_world [''cursor'' \<mapsto> ''3''])))) =
     [(''cursor'', ''0''), (''cursor'', ''1'')] \<and>
   decimal ''0'' \<and> decimal ''1'' \<and>
   cursor (demo_streamer ''abcde'')
     (snd (FormList (demo_streamer ''abcde'') (demo_world [''cursor'' \<mapsto> ''3'']))) = Some ''1''"
  using FormList_writes_decimal_cursor
    [of "demo_world [''cursor'' \<mapsto> ''3'']" "demo_streamer ''abcde''"]
  by (simp add: demo_wrap issued_def demo_simps cursor_def decimal_def is_digit_def)

section \<open>Processing a page\<close>

lemma recording_apply:
  "recording fn ctx x (h, log) = (case fn ctx x h of (r, h') \<Rightarrow> (r, (h', log @ [(x, r)])))"
  by (simp add: recording_def)

lemma process_entities_recording_plain:
  "process_entities (recording fn) ctx page (h, log) = (r, (h', log')) \<Longrightarrow>
   process_entities fn ctx page h = (r, h')"
  by (induction page arbitrary: h log)
     (auto simp: recording_apply split: prod.splits option.splits)

lemma process_entities_calls:
  "process_entities (recording fn) ctx page (h, log) = (r, (h', log')) \<Longrightarrow>
   \<exists>calls. log' = log @ calls \<and> length calls \<le> length page \<and>
     map fst calls = take (length calls) page \<and>
     (\<forall>c \<in> set (butlast calls). snd c = None) \<and>
     (case r of
        None \<Rightarrow> length calls = length page \<and> (\<forall>c \<in> set calls. snd c = None)
      | Some e \<Rightarrow>
          calls \<noteq> [] \<and>
          (\<exists>e0. snd (last calls) = Some e0 \<and> e = Wrap e0 ''failed to process an entity'' []))"
proof (induction page arbitrary: h log)
  case Nil
  then show ?case by simp
next
  case (Cons x xs)
  obtain r0 h0 where f: "fn ctx x h = (r0, h0)" by (cases "fn ctx x h")
  show ?case
  proof (cases r0)
    case (Some e0)
    with f Cons.prems have "r = Some (Wrap e0 ''failed to process an entity'' [])"
      and "log' = log @ [(x, Some e0)]"
      by (simp_all add: recording_apply)
    then show ?thesis
      by (intro exI [of _ "[(x, Some e0)]"]) simp
  next
    case None
    with f Cons.prems
    have "process_entities (recording fn) ctx xs (h0, log @ [(x, None)]) = (r, (h', log'))"
      by (simp add: recording_apply)
    from Cons.IH [OF this] obtain calls where c: "log' = (log @ [(x, None)]) @ calls"
      "length calls \<le> length xs" "map fst calls = take (length calls) xs"
      "\<forall>c \<in> set (butlast calls). snd c = None"
      "case r of
        None \<Rightarrow> length calls = length xs \<and> (\<forall>c \<in> set calls. snd c = None)
      | Some e \<Rightarrow>
          calls \<noteq> [] \<and>
          (\<exists>e0. snd (last calls) = Some e0 \<and> e = Wrap e0 ''failed to process an entity'' [])"
      by blast
    from c show ?thesis
      by (intro exI [of _ "(x, None) # calls"]) (auto split: option.splits)
  qed
qed

lemma demo_process:
  "FormListAndProcess (demo_streamer ''abcde'') (recording (fail_on (CHR ''b''))) ((), [])
     (demo_world Map.empty) =
     ((Some (Wrap (External ''boom'') ''failed to process an entity'' []),
       ((), [(CHR ''a'', None), (CHR ''b'', Some (External ''boom''))])),
      snd (FormList (demo_streamer ''abcde'') (demo_world Map.empty)))"
  "FormListAndProcess (demo_streamer ''abcde'') (recording (fail_on (CHR ''a''))) ((), [])
     (demo_world Map.empty) =
     ((Some (Wrap (External ''boom'') ''failed to process an entity'' []),
       ((), [(CHR ''a'', Some (External ''boom''))])),
      snd (FormList (demo_streamer ''abcde'') (demo_world Map.empty)))"
  by (simp_all add: FormListAndProcess_def demo_first_page recording_apply fail_on_def)

text \<open>
  C5 (amended).  When \<open>FormList\<close> returns a page, \<open>FormListAndProcess\<close> invokes the
  handler on the elements of the page in order, once each, up to the first element the
  handler fails on: every invocation but the last returned no error; with no failure the
  handler has seen the whole page and the result is no error; on a failure the result
  is that error wrapped with the message ``failed to process an entity'' and no field,
  and the handler is not invoked on a later element.  When \<open>FormList\<close> fails the handler
  is not invoked and the error is wrapped with ``failed to form a list of entities''.
  The recording does not change the result.
\<close>

theorem FormListAndProcess_calls_handler_in_order:
  "(\<forall>page. fst (FormList s w) = Inr page \<longrightarrow>
      length (snd (snd (fst (FormListAndProcess s (recording fn) (h, []) w)))) \<le> length page \<and>
      map fst (snd (snd (fst (FormListAndProcess s (recording fn) (h, []) w)))) =
        take (length (snd (snd (fst (FormListAndProcess s (recording fn) (h, []) w))))) page \<and>
      (\<forall>c \<in> set (butlast (snd (snd (fst (FormListAndProcess s (recording fn) (h, []) w))))).
         snd c = None) \<and>
      (case fst (fst (FormListAndProcess s (recording fn) (h, []) w)) of
         None \<Rightarrow>
           map fst (snd (snd (fst (FormListAndProcess s (recording fn) (h, []) w)))) = page \<and>
           (\<forall>c \<in> set (snd (snd (fst (FormListAndProcess s (recording fn) (h, []) w)))).
              snd c = None)
       | Some e \<Rightarrow>
           snd (snd (fst (FormListAndProcess s (recording fn) (h, []) w))) \<noteq> [] \<and>
           (\<exists>e0. snd (last (snd (snd (fst (FormListAndProcess s (recording fn) (h, []) w))))) =
                   Some e0 \<and>
                 e = Wrap e0 ''failed to process an entity'' []))) \<and>
   (\<forall>e. fst (FormList s w) = Inl e \<longrightarrow>
      fst (fst (FormListAndProcess s (recording fn) (h, []) w)) =
        Some (Wrap e ''failed to form a list of entities'' []) \<and>
      snd (snd (fst (FormListAndProcess s (recording fn) (h, []) w))) = []) \<and>
   snd (FormListAndProcess s (recording fn) (h, []) w) = snd (FormList s w) \<and>
   fst (fst (FormListAndProcess s fn h w)) =
     fst (fst (FormListAndProcess s (recording fn) (h, []) w))"
proof (intro conjI allI impI)
  fix e
  assume "fst (FormList s w) = Inl e"
  then show "fst (fst (FormListAndProcess s (recording fn) (h, []) w)) =
        Some (Wrap e ''failed to form a list of entities'' [])"
    and "snd (snd (fst (FormListAndProcess s (recording fn) (h, []) w))) = []"
    by (auto simp: FormListAndProcess_def split: prod.splits)
next
  show "snd (FormListAndProcess s (recording fn) (h, []) w) = snd (FormList s w)"
    by (auto simp: FormListAndProcess_def split: prod.splits sum.splits)
next
  obtain r w' where fl: "FormList s w = (r, w')" by (cases "FormList s w")
  show "fst (fst (FormListAndProcess s fn h w)) =
     fst (fst (FormListAndProcess s (recording fn) (h, []) w))"
  proof (cases r)
    case (Inl e)
    with fl show ?thesis by (simp add: FormListAndProcess_def)
  next
    case (Inr page)
    obtain r' h' log' where
      p: "process_entities (recording fn) (Ctx s) page (h, []) = (r', (h', log'))"
      by (cases "process_entities (recording fn) (Ctx s) page (h, [])") auto
    from process_entities_recording_plain [OF p] p fl Inr show ?thesis
      by (simp add: FormListAndProcess_def)
  qed
next
  fix page
  assume a: "fst (FormList s w) = Inr page"
  let ?log = "snd (snd (fst (FormListAndProcess s (recording fn) (h, []) w)))"
  let ?err = "fst (fst (FormListAndProcess s (recording fn) (h, []) w))"
  obtain r' h' log' where
    p: "process_entities (recording fn) (Ctx s) page (h, []) = (r', (h', log'))"
    by (cases "process_entities (recording fn) (Ctx s) page (h, [])") auto
  with a have l: "?log = log'" and e: "?err = r'"
    by (auto simp: FormListAndProcess_def split: prod.splits)
  from process_entities_calls [OF p] have c: "length log' \<le> length page"
    "map fst log' = take (length log') page"
    "\<forall>c \<in> set (butlast log'). snd c = None"
    "case r' of
        None \<Rightarrow> length log' = length page \<and> (\<forall>c \<in> set log'. snd c = None)
      | Some e \<Rightarrow>
          log' \<noteq> [] \<and>
          (\<exists>e0. snd (last log') = Some e0 \<and> e = Wrap e0 ''failed to process an entity'' [])"
    by auto
  from c(1) show "length ?log \<le> length page" by (simp add: l)
  from c(2) show "map fst ?log = take (length ?log) page" by (simp add: l)
  from c(3) show "\<forall>c \<in> set (butlast ?log). snd c = None" by (simp add: l)
  from c(2) c(4) show "case ?err of
         None \<Rightarrow> map fst ?log = page \<and> (\<forall>c \<in> set ?log. snd c = None)
       | Some e \<Rightarrow>
           ?log \<noteq> [] \<and>
           (\<exists>e0. snd (last ?log) = Some e0 \<and> e = Wrap e0 ''failed to process an entity'' [])"
    unfolding l e by (cases r') simp_all
qed

theorem FormListAndProcess_calls_handler_in_order_witness:
  "fst (FormList (demo_streamer ''abcde'') (demo_world Map.empty)) = Inr ''ab'' \<and>
   map fst (snd (snd (fst (FormListAndProcess (demo_streamer ''abcde'')
     (recording (fail_on (CHR ''b''))) ((), []) (demo_world Map.empty))))) = ''ab'' \<and>
   snd (last (snd (snd (fst (FormListAndProcess (demo_streamer ''abcde'')
     (recording (fail_on (CHR ''b''))) ((), []) (demo_world Map.empty)))))) =
     Some (External ''boom'') \<and>
   fst (fst (FormListAndProcess (demo_streamer ''abcde'') (fail_on (CHR ''b'')) ()
     (demo_world Map.empty))) =
     Some (Wrap (External ''boom'') ''failed to process an entity'' [])"
  using FormListAndProcess_calls_handler_in_order
    [of "demo_streamer ''abcde''" "demo_world Map.empty" "fail_on (CHR ''b'')" "()"]
  by (simp add: demo_process demo_first_page)

text \<open>
  The wrapped error does not tell which element failed: a handler failing on the first
  element of the page and one failing on the second yield the same error.
\<close>

theorem FormListAndProcess_error_has_no_position:
  "map fst (snd (snd (fst (FormListAndProcess (demo_streamer ''abcde'')
     (recording (fail_on (CHR ''a''))) ((), []) (demo_world Map.empty))))) = ''a'' \<and>
   map fst (snd (snd (fst (FormListAndProcess (demo_streamer ''abcde'')
     (recording (fail_on (CHR ''b''))) ((), []) (demo_world Map.empty))))) = ''ab'' \<and>
   fst (fst (FormListAndProcess (demo_streamer ''abcde'')
     (recording (fail_on (CHR ''a''))) ((), []) (demo_world Map.empty))) =
   fst (fst (FormListAndProcess (demo_streamer ''abcde'')
     (recording (fail_on (CHR ''b''))) ((), []) (demo_world Map.empty))) \<and>
   fst (fst (FormListAndProcess (demo_streamer ''abcde'')
     (recording (fail_on (CHR ''b''))) ((), []) (demo_world Map.empty))) =
     Some (Wrap (External ''boom'') ''failed to process an entity'' [])"
  by (simp add: demo_process)

section \<open>Repeated calls\<close>

lemma engine_up_next_fault: "engine_up w \<Longrightarrow> next_fault (store w) = None"
  by (cases "faults (store w)") (simp_all add: engine_up_def next_fault_def)

lemma engine_up_issue:
  "engine_up w \<Longrightarrow> faults (store w') = tl (faults (store w)) \<Longrightarrow> engine_up w'"
  by (cases "faults (store w)") (simp_all add: engine_up_def)

lemma Select_source:
  "Select s p w = (fst (Stream s \<lparr>Limit = BatchSize s, Order = [], PageNumber = p\<rparr> (source w)),
                   w\<lparr>source := snd (Stream s \<lparr>Limit = BatchSize s, Order = [], PageNumber = p\<rparr> (source w))\<rparr>)"
  by (simp add: Select_def split: prod.splits)

lemma FormList_on_page:
  assumes pg: "\<And>\<sigma>. fst (Stream s \<lparr>Limit = BatchSize s, Order = [], PageNumber = c\<rparr> \<sigma>) = Inr page"
    and ne: "page \<noteq> []"
    and enc: "cursor s w = None \<and> c = 0 \<or> cursor s w = Some (FormatUint c)"
  shows "(\<not> isl (fst (FormList s w)) \<longrightarrow>
            fst (FormList s w) = Inr page \<and>
            cursor s (snd (FormList s w)) = Some (FormatUint (c + 1))) \<and>
         (engine_up w \<and> c < 2 ^ 63 \<longrightarrow>
            \<not> isl (fst (FormList s w)) \<and> engine_up (snd (FormList s w)))"
proof -
  let ?G = "SelectStmt (KeyValueKey s) True"
  let ?w1 = "w\<lparr>store := issue ?G (store w)\<rparr>"
  from enc have rd: "(case cursor s w of None \<Rightarrow> Inr 0 | Some v \<Rightarrow> parse_cursor v) =
      (if c < 2 ^ 63 then Inr c
       else Inl (Wrap (NumError ''ParseInt'' (FormatUint c) ErrRange) ''failed to parse cursor''
                   [(''kv_cursor'', FString (FormatUint c))]))"
    by (auto simp: parse_cursor_FormatUint)
  show ?thesis
  proof (cases "next_fault (store w) = None \<and> c < 2 ^ 63")
    case False
    then have "\<exists>e. GetCurrentPage s w = (Inl e, ?w1)"
      by (cases "next_fault (store w)") (simp_all add: GetCurrentPage_result rd)
    then obtain e where "GetCurrentPage s w = (Inl e, ?w1)" ..
    then have "isl (fst (FormList s w))"
      by (simp add: FormList_page_error)
    with False engine_up_next_fault [of w] show ?thesis by auto
  next
    case True
    then have g: "GetCurrentPage s w = (Inr c, ?w1)"
      by (simp add: GetCurrentPage_result rd)
    obtain w2 where sel: "Select s c ?w1 = (Inr page, w2)" and w2: "store w2 = store ?w1"
      by (simp add: Select_source pg)
    note fl = FormList_advance [OF g sel ne]
    show ?thesis
    proof (cases "next_fault (store w2)")
      case (Some m)
      with fl have "isl (fst (FormList s w))"
        by (simp add: upsert_cursor_result)
      moreover have "\<not> engine_up w"
      proof
        assume "engine_up w"
        then have "engine_up w2" by (rule engine_up_issue) (simp add: w2)
        from engine_up_next_fault [OF this] Some show False by simp
      qed
      ultimately show ?thesis by simp
    next
      case None
      with fl have r: "fst (FormList s w) = Inr page"
        and c': "cursor s (snd (FormList s w)) = Some (FormatUint (c + 1))"
        and f: "faults (store (snd (FormList s w))) = tl (faults (store w2))"
        by (simp_all add: upsert_cursor_result cursor_def)
      have "engine_up w \<Longrightarrow> engine_up (snd (FormList s w))"
      proof -
        assume "engine_up w"
        then have "engine_up w2" by (rule engine_up_issue) (simp add: w2)
        then show ?thesis using f by (rule engine_up_issue)
      qed
      with r c' show ?thesis by simp
    qed
  qed
qed

lemma FormList_past_end:
  assumes p0: "\<And>\<sigma>. fst (Stream s \<lparr>Limit = BatchSize s, Order = [], PageNumber = 0\<rparr> \<sigma>) = Inr page0"
    and ne: "page0 \<noteq> []"
    and pe: "\<And>\<sigma>. fst (Stream s \<lparr>Limit = BatchSize s, Order = [], PageNumber = c\<rparr> \<sigma>) = Inr []"
    and nz: "c \<noteq> 0"
    and enc: "cursor s w = Some (FormatUint c)"
  shows "(\<not> isl (fst (FormList s w)) \<longrightarrow>
            fst (FormList s w) = Inr page0 \<and>
            cursor s (snd (FormList s w)) = Some (FormatUint 1)) \<and>
         (engine_up w \<and> c < 2 ^ 63 \<longrightarrow>
            \<not> isl (fst (FormList s w)) \<and> engine_up (snd (FormList s w)))"
proof -
  let ?G = "SelectStmt (KeyValueKey s) True"
  let ?w1 = "w\<lparr>store := issue ?G (store w)\<rparr>"
  from enc have rd: "(case cursor s w of None \<Rightarrow> Inr 0 | Some v \<Rightarrow> parse_cursor v) =
      (if c < 2 ^ 63 then Inr c
       else Inl (Wrap (NumError ''ParseInt'' (FormatUint c) ErrRange) ''failed to parse cursor''
                   [(''kv_cursor'', FString (FormatUint c))]))"
    by (auto simp: parse_cursor_FormatUint)
  show ?thesis
  proof (cases "next_fault (store w) = None \<and> c < 2 ^ 63")
    case False
    then have "\<exists>e. GetCurrentPage s w = (Inl e, ?w1)"
      by (cases "next_fault (store w)") (simp_all add: GetCurrentPage_result rd)
    then obtain e where "GetCurrentPage s w = (Inl e, ?w1)" ..
    then have "isl (fst (FormList s w))"
      by (simp add: FormList_page_error)
    with False engine_up_next_fault [of w] show ?thesis by auto
  next
    case True
    then have g: "GetCurrentPage s w = (Inr c, ?w1)"
      by (simp add: GetCurrentPage_result rd)
    obtain w2 where sel: "Select s c ?w1 = (Inr [], w2)" and w2: "store w2 = store ?w1"
      by (simp add: Select_source pe)
    note fl = FormList_reset [OF g nz sel]
    have up2: "engine_up w \<Longrightarrow> engine_up w2"
      by (erule engine_up_issue) (simp add: w2)
    show ?thesis
    proof (cases "next_fault (store w2)")
      case (Some m)
      with fl have "isl (fst (FormList s w))"
        by (simp add: upsert_cursor_result)
      moreover from Some engine_up_next_fault [of w2] up2 have "\<not> engine_up w" by auto
      ultimately show ?thesis by simp
    next
      case None
      let ?w3 = "w2\<lparr>store := (issue (UpsertStmt (KeyValueKey s) ''0'') (store w2))
                             \<lparr>rows := (rows (store w2))(KeyValueKey s \<mapsto> ''0'')\<rparr>\<rparr>"
      from fl None have fl3: "FormList s w = FormList s ?w3"
        by (simp add: upsert_cursor_result)
      have enc3: "cursor s ?w3 = None \<and> (0::nat) = 0 \<or> cursor s ?w3 = Some (FormatUint 0)"
        by (simp add: cursor_def FormatUint_zero)
      have up3: "engine_up w \<Longrightarrow> engine_up ?w3"
        by (drule up2, erule engine_up_issue) simp
      from FormList_on_page [of s 0 page0 ?w3, OF p0 ne enc3] up3 show ?thesis
        unfolding fl3 by simp
    qed
  qed
qed

lemma FormList_one_call:
  assumes pg: "\<forall>p\<le>N. \<forall>\<sigma>. fst (Stream s \<lparr>Limit = BatchSize s, Order = [], PageNumber = p\<rparr> \<sigma>) =
                   Inr (pages p) \<and> pages p \<noteq> []"
    and pe: "\<forall>\<sigma>. fst (Stream s \<lparr>Limit = BatchSize s, Order = [], PageNumber = Suc N\<rparr> \<sigma>) = Inr []"
    and enc: "cursor s w = None \<and> c = 0 \<or> cursor s w = Some (FormatUint c)"
    and le: "c \<le> Suc N"
  shows "(\<not> isl (fst (FormList s w)) \<longrightarrow>
            fst (FormList s w) = Inr (pages (c mod Suc N)) \<and>
            cursor s (snd (FormList s w)) = Some (FormatUint (c mod Suc N + 1))) \<and>
         (engine_up w \<and> Suc N < 2 ^ 63 \<longrightarrow>
            \<not> isl (fst (FormList s w)) \<and> engine_up (snd (FormList s w)))"
proof (cases "c \<le> N")
  case True
  with pg have a: "\<And>\<sigma>. fst (Stream s \<lparr>Limit = BatchSize s, Order = [], PageNumber = c\<rparr> \<sigma>) =
      Inr (pages c)" and b: "pages c \<noteq> []"
    by simp_all
  from True have m: "c mod Suc N = c" by simp
  from True have "Suc N < 2 ^ 63 \<Longrightarrow> c < 2 ^ 63" by simp
  with FormList_on_page [of s c "pages c" w, OF a b enc] show ?thesis
    unfolding m by blast
next
  case False
  with le have c: "c = Suc N" by simp
  from pg have a: "\<And>\<sigma>. fst (Stream s \<lparr>Limit = BatchSize s, Order = [], PageNumber = 0\<rparr> \<sigma>) =
      Inr (pages 0)" and b: "pages 0 \<noteq> []"
    by simp_all
  from pe c have e: "\<And>\<sigma>. fst (Stream s \<lparr>Limit = BatchSize s, Order = [], PageNumber = c\<rparr> \<sigma>) = Inr []"
    by simp
  from c have nz: "c \<noteq> 0" by simp
  with enc have enc': "cursor s w = Some (FormatUint c)" by simp
  from c have m: "c mod Suc N = 0" by simp
  from FormList_past_end [of s "pages 0" c w, OF a b e nz enc'] c show ?thesis
    unfolding m by simp
qed

lemma FormList_calls_from:
  assumes pg: "\<forall>p\<le>N. \<forall>\<sigma>. fst (Stream s \<lparr>Limit = BatchSize s, Order = [], PageNumber = p\<rparr> \<sigma>) =
                   Inr (pages p) \<and> pages p \<noteq> []"
    and pe: "\<forall>\<sigma>. fst (Stream s \<lparr>Limit = BatchSize s, Order = [], PageNumber = Suc N\<rparr> \<sigma>) = Inr []"
  shows "(cursor s w = None \<and> c = 0 \<or> cursor s w = Some (FormatUint c)) \<Longrightarrow> c \<le> Suc N \<Longrightarrow>
     ((\<forall>r \<in> set (FormList_calls k s w). \<not> isl (fst r)) \<longrightarrow>
        (\<forall>i<k. FormList_calls k s w ! i =
           (Inr (pages ((c + i) mod Suc N)), Some (FormatUint ((c + i) mod Suc N + 1))))) \<and>
     (engine_up w \<and> Suc N < 2 ^ 63 \<longrightarrow> (\<forall>r \<in> set (FormList_calls k s w). \<not> isl (fst r)))"
proof (induction k arbitrary: w c)
  case 0
  show ?case by simp
next
  case (Suc k)
  obtain r w' where fl: "FormList s w = (r, w')" by (cases "FormList s w")
  let ?c' = "c mod Suc N + 1"
  note one = FormList_one_call [OF pg pe Suc.prems, unfolded fl fst_conv snd_conv]
  have calls: "FormList_calls (Suc k) s w = (r, cursor s w') # FormList_calls k s w'"
    by (simp add: fl)
  have le': "?c' \<le> Suc N" by simp
  have step: "(?c' + i) mod Suc N = (c + Suc i) mod Suc N" for i
  proof -
    have "(c mod Suc N + (1 + i)) mod Suc N = (c + (1 + i)) mod Suc N"
      by (rule mod_add_left_eq)
    then show ?thesis by (simp add: ac_simps)
  qed
  show ?case
  proof (intro conjI impI)
    assume ok: "\<forall>r \<in> set (FormList_calls (Suc k) s w). \<not> isl (fst r)"
    then have ok0: "\<not> isl r" and okr: "\<forall>r \<in> set (FormList_calls k s w'). \<not> isl (fst r)"
      unfolding calls by simp_all
    from one ok0 have r: "r = Inr (pages (c mod Suc N))"
      and c': "cursor s w' = Some (FormatUint ?c')"
      by simp_all
    from c' have enc': "cursor s w' = None \<and> ?c' = 0 \<or> cursor s w' = Some (FormatUint ?c')"
      by simp
    from Suc.IH [OF enc' le'] okr
    have rest: "\<forall>i<k. FormList_calls k s w' ! i =
        (Inr (pages ((?c' + i) mod Suc N)), Some (FormatUint ((?c' + i) mod Suc N + 1)))"
      by blast
    show "\<forall>i<Suc k. FormList_calls (Suc k) s w ! i =
        (Inr (pages ((c + i) mod Suc N)), Some (FormatUint ((c + i) mod Suc N + 1)))"
    proof (intro allI impI)
      fix i assume i: "i < Suc k"
      show "FormList_calls (Suc k) s w ! i =
        (Inr (pages ((c + i) mod Suc N)), Some (FormatUint ((c + i) mod Suc N + 1)))"
      proof (cases i)
        case 0
        with r c' show ?thesis unfolding calls by simp
      next
        case (Suc j)
        with i have "j < k" by simp
        with rest have "FormList_calls k s w' ! j =
          (Inr (pages ((?c' + j) mod Suc N)), Some (FormatUint ((?c' + j) mod Suc N + 1)))"
          by blast
        then show ?thesis unfolding step Suc calls by simp
      qed
    qed
  next
    assume up: "engine_up w \<and> Suc N < 2 ^ 63"
    with one have ok0: "\<not> isl r" and up': "engine_up w'" by simp_all
    from one ok0 have c': "cursor s w' = Some (FormatUint ?c')" by simp
    then have enc': "cursor s w' = None \<and> ?c' = 0 \<or> cursor s w' = Some (FormatUint ?c')"
      by simp
    from Suc.IH [OF enc' le'] up up'
    have "\<forall>r \<in> set (FormList_calls k s w'). \<not> isl (fst r)" by blast
    with ok0 show "\<forall>r \<in> set (FormList_calls (Suc k) s w). \<not> isl (fst r)"
      unfolding calls by simp
  qed
qed

text \<open>
  C1.  Let the source present, for the batch size of the streamer, the non-empty pages
  \<open>pages 0\<close> to \<open>pages N\<close> and an empty page \<open>N + 1\<close>, and let the stored cursor
  start at 0 (absent, or \<open>''0''\<close>).  Then in every run of \<open>k\<close> calls of \<open>FormList\<close> that
  all succeed, call number \<open>i\<close> (from 0) returns page \<open>i mod (N + 1)\<close> and leaves the
  stored cursor at the decimal string of that page number plus one: the pages come in
  the cyclic order 0, 1, ..., N, 0, 1, ... for as long as one calls.  And the calls do
  all succeed when the engine does not fail and \<open>N + 1 < 2 ^ 63\<close>.
\<close>

theorem FormList_cycles_through_pages:
  "(\<forall>p\<le>N. \<forall>\<sigma>. fst (Stream s \<lparr>Limit = BatchSize s, Order = [], PageNumber = p\<rparr> \<sigma>) =
              Inr (pages p) \<and> pages p \<noteq> []) \<and>
   (\<forall>\<sigma>. fst (Stream s \<lparr>Limit = BatchSize s, Order = [], PageNumber = Suc N\<rparr> \<sigma>) = Inr []) \<and>
   (cursor s w = None \<or> cursor s w = Some ''0'') \<longrightarrow>
   ((\<forall>r \<in> set (FormList_calls k s w). \<not> isl (fst r)) \<longrightarrow>
      (\<forall>i<k. FormList_calls k s w ! i =
         (Inr (pages (i mod Suc N)), Some (FormatUint (i mod Suc N + 1))))) \<and>
   (engine_up w \<and> Suc N < 2 ^ 63 \<longrightarrow> (\<forall>r \<in> set (FormList_calls k s w). \<not> isl (fst r)))"
proof (intro impI, elim conjE)
  assume pg: "\<forall>p\<le>N. \<forall>\<sigma>. fst (Stream s \<lparr>Limit = BatchSize s, Order = [], PageNumber = p\<rparr> \<sigma>) =
                   Inr (pages p) \<and> pages p \<noteq> []"
    and pe: "\<forall>\<sigma>. fst (Stream s \<lparr>Limit = BatchSize s, Order = [], PageNumber = Suc N\<rparr> \<sigma>) = Inr []"
    and z: "cursor s w = None \<or> cursor s w = Some ''0''"
  from z have enc: "cursor s w = None \<and> (0::nat) = 0 \<or> cursor s w = Some (FormatUint 0)"
    by (simp add: FormatUint_zero)
  from FormList_calls_from [OF pg pe enc, of k]
  show "((\<forall>r \<in> set (FormList_calls k s w). \<not> isl (fst r)) \<longrightarrow>
      (\<forall>i<k. FormList_calls k s w ! i =
         (Inr (pages (i mod Suc N)), Some (FormatUint (i mod Suc N + 1))))) \<and>
   (engine_up w \<and> Suc N < 2 ^ 63 \<longrightarrow> (\<forall>r \<in> set (FormList_calls k s w). \<not> isl (fst r)))"
    by simp
qed

lemma length_FormList_calls: "length (FormList_calls k s w) = k"
  by (induction k arbitrary: w) (simp_all split: prod.splits)

text \<open>
  The scenario of the specification: batch size 2 and the five items \<open>a b c d e\<close>; four
  calls return \<open>ab\<close>, \<open>cd\<close>, \<open>e\<close>, \<open>ab\<close> and leave the cursors 1, 2, 3, 1.
\<close>

theorem FormList_cycles_through_pages_witness:
  "cursor (demo_streamer ''abcde'') (demo_world Map.empty) = None \<and>
   engine_up (demo_world Map.empty) \<and>
   FormList_calls 4 (demo_streamer ''abcde'') (demo_world Map.empty) =
     [(Inr ''ab'', Some ''1''), (Inr ''cd'', Some ''2''), (Inr ''e'', Some ''3''),
      (Inr ''ab'', Some ''1'')]"
proof -
  let ?s = "demo_streamer ''abcde''" and ?w = "demo_world Map.empty"
  let ?pages = "\<lambda>p. take 2 (drop (2 * p) ''abcde'')"
  let ?calls = "FormList_calls 4 ?s ?w"
  have h1: "\<forall>p\<le>2. \<forall>\<sigma>. fst (Stream ?s \<lparr>Limit = BatchSize ?s, Order = [], PageNumber = p\<rparr> \<sigma>) =
              Inr (?pages p) \<and> ?pages p \<noteq> []"
  proof (intro allI impI)
    fix p :: nat and \<sigma> :: unit
    assume "p \<le> 2"
    then have "p = 0 \<or> p = 1 \<or> p = 2" by arith
    then show "fst (Stream ?s \<lparr>Limit = BatchSize ?s, Order = [], PageNumber = p\<rparr> \<sigma>) =
              Inr (?pages p) \<and> ?pages p \<noteq> []"
      by (elim disjE) (simp_all add: demo_streamer_def slice_source_def)
  qed
  have h2: "\<forall>\<sigma>. fst (Stream ?s \<lparr>Limit = BatchSize ?s, Order = [], PageNumber = Suc 2\<rparr> \<sigma>) = Inr []"
    by (simp add: demo_streamer_def slice_source_def)
  have h3: "cursor ?s ?w = None \<or> cursor ?s ?w = Some ''0''"
    by (simp add: demo_simps)
  have up: "engine_up ?w \<and> Suc 2 < 2 ^ 63"
    by (simp add: engine_up_def demo_simps)
  from FormList_cycles_through_pages [of 2 ?s ?pages ?w 4, THEN mp, OF conjI [OF h1 conjI [OF h2 h3]]] up
  have all: "\<forall>i<4. ?calls ! i = (Inr (?pages (i mod Suc 2)), Some (FormatUint (i mod Suc 2 + 1)))"
    by blast
  have "?calls ! 0 = (Inr ''ab'', Some ''1'')" "?calls ! 1 = (Inr ''cd'', Some ''2'')"
    "?calls ! 2 = (Inr ''e'', Some ''3'')" "?calls ! 3 = (Inr ''ab'', Some ''1'')"
    using all [rule_format, of 0] all [rule_format, of 1] all [rule_format, of 2]
      all [rule_format, of 3]
    by (simp_all add: FormatUint_digit digits_def)
  moreover have "length ?calls = 4" by (rule length_FormList_calls)
  ultimately have "?calls = [(Inr ''ab'', Some ''1''), (Inr ''cd'', Some ''2''),
      (Inr ''e'', Some ''3''), (Inr ''ab'', Some ''1'')]"
    by (intro nth_equalityI) (auto simp: less_Suc_eq numeral_eq_Suc simp del: FormList_calls.simps)
  with up show ?thesis by (simp add: demo_simps)
qed

end
